theory Spec2Isabelle
  imports Main "HOL-Library.Word" "HOL-Library.Code_Target_Nat"
begin

unbundle bit_operations_syntax

section \<open>Machine types\<close>

text \<open>
  Go's fixed-width integers are words: \<open>+\<close> wraps, \<open><\<close> on an unsigned word is the
  unsigned order. A Go \<open>string\<close> is a sequence of bytes, here a \<open>string\<close> (one \<open>char\<close>
  per byte), so that \<open>len(s)\<close> is \<open>length s\<close>.
\<close>

type_synonym byte = "8 word"
type_synonym uint16 = "16 word"
type_synonym uint32 = "32 word"
type_synonym uint64 = "64 word"
type_synonym int32 = "32 word"   \<comment> \<open>two's complement, read with \<open>sint\<close>\<close>
type_synonym int64 = "64 word"   \<comment> \<open>two's complement, read with \<open>sint\<close>\<close>

text \<open>
  \<open>BitcoinNet\<close> and \<open>ServiceFlag\<close> are declared outside the two source files; the
  header comment of \<open>messageHeader\<close> gives the first 4 bytes, and \<open>Services\<close> is the
  64-bit bitfield of the version message.
\<close>

type_synonym BitcoinNet = uint32
type_synonym ServiceFlag = uint64

definition bytes_of :: "string \<Rightarrow> byte list" where
  "bytes_of s = map of_char s"

definition string_of :: "byte list \<Rightarrow> string" where
  "string_of bs = map (\<lambda>b. char_of (unat b)) bs"

section \<open>Errors\<close>

text \<open>
  Every error the two files return. The description that \<open>fmt.Sprintf\<close> formats is kept
  as the arguments of its format, one constructor per call site.
\<close>

datatype description =
    CommandTooLong string nat
  | EncodedTooLarge nat nat
  | EncodedExceedsType nat string uint32
  | HeaderTooLarge uint32 nat
  | OtherNetwork BitcoinNet
  | InvalidCommand "byte list"
  | UnhandledCommand string
  | PayloadExceedsType uint32 string uint32
  | ChecksumFailed "byte list" "byte list"
  | UserAgentTooLong nat nat
  | Text string
  | Prefixed string description

datatype error =
    EOF
  | ErrUnexpectedEOF
  | ErrShortWrite
  | Errorf description
  | MessageError string description

text \<open>
  Modelled from the spec: \<open>messageError\<close> is not in the two source files; the spec has
  every rejection carry the operation name and a description, which is what the two
  arguments at each call site are.
\<close>

definition messageError :: "string \<Rightarrow> description \<Rightarrow> error" where
  "messageError f str = MessageError f str"

text \<open>The method \<open>err.Error()\<close>: the text of an error.\<close>

fun Error_text :: "error \<Rightarrow> description" where
  "Error_text EOF = Text ''EOF''"
| "Error_text ErrUnexpectedEOF = Text ''unexpected EOF''"
| "Error_text ErrShortWrite = Text ''short write''"
| "Error_text (Errorf d) = d"
| "Error_text (MessageError f d) = Prefixed f d"

section \<open>Byte order\<close>

text \<open>
  Little-endian and big-endian images of a word in \<open>n\<close> bytes, and the words read back
  from them (\<open>binary.LittleEndian\<close>, \<open>binary.BigEndian\<close>).
\<close>

primrec le_bytes :: "nat \<Rightarrow> 'a::len word \<Rightarrow> byte list" where
  "le_bytes 0 w = []"
| "le_bytes (Suc n) w = ucast w # le_bytes n (drop_bit 8 w)"

primrec le_word :: "byte list \<Rightarrow> 'a::len word" where
  "le_word [] = 0"
| "le_word (b # bs) = ucast b OR push_bit 8 (le_word bs)"

definition be_bytes :: "nat \<Rightarrow> 'a::len word \<Rightarrow> byte list" where
  "be_bytes n w = rev (le_bytes n w)"

definition be_word :: "byte list \<Rightarrow> 'a::len word" where
  "be_word bs = le_word (rev bs)"

section \<open>Input streams\<close>

text \<open>
  The state on the reading side: the bytes the \<open>io.Reader\<close> has not delivered yet, the
  trace of the requests made to it through \<open>io.ReadFull\<close> (the length asked for, in
  order), and the trace of the buffers obtained with \<open>make([]byte, n)\<close>.
\<close>

record rstate =
  input :: "byte list"
  reads :: "nat list"
  allocs :: "nat list"

definition make_bytes :: "rstate \<Rightarrow> nat \<Rightarrow> rstate" where
  "make_bytes s n = s\<lparr>allocs := allocs s @ [n]\<rparr>"

text \<open>
  \<open>io.ReadFull(r, buf)\<close> with \<open>len(buf) = n\<close>: a buffer of length 0 is filled without
  calling the reader; otherwise the request is made, and a stream that ends early gives
  \<open>io.EOF\<close> when nothing was read and \<open>io.ErrUnexpectedEOF\<close> after a partial read.
\<close>

definition io_ReadFull :: "rstate \<Rightarrow> nat \<Rightarrow> rstate \<times> (error + byte list)" where
  "io_ReadFull s n =
     (if n = 0 then (s, Inr [])
      else if n \<le> length (input s)
        then (s\<lparr>input := drop n (input s), reads := reads s @ [n]\<rparr>, Inr (take n (input s)))
      else (s\<lparr>input := [], reads := reads s @ [n]\<rparr>,
            Inl (if input s = [] then EOF else ErrUnexpectedEOF)))"

section \<open>discardInput\<close>

text \<open>The loop \<open>for i := uint32(0); i < numReads; i++ { io.ReadFull(r, buf) }\<close>.\<close>

function discardLoop :: "rstate \<Rightarrow> nat \<Rightarrow> uint32 \<Rightarrow> uint32 \<Rightarrow> rstate" where
  "discardLoop s buf i numReads =
     (if i < numReads then discardLoop (fst (io_ReadFull s buf)) buf (i + 1) numReads else s)"
  by pat_completeness auto
termination
proof (relation "measure (\<lambda>(s, buf, i, numReads). unat numReads - unat i)")
  show "wf (measure (\<lambda>(s, buf, i, numReads). unat numReads - unat i))"
    by simp
next
  fix s :: rstate and buf :: nat and i numReads :: uint32
  assume lt: "i < numReads"
  then have "i \<noteq> - 1"
    by (metis word_order.extremum_strict)
  then have "1 + i \<noteq> 0"
    by (metis add.commute add_neg_numeral_special(8) add_right_cancel)
  then have "unat (i + 1) = Suc (unat i)"
    by (simp add: unatSuc add.commute)
  moreover from lt have "unat i < unat numReads"
    by (simp add: word_less_nat_alt)
  ultimately show "((fst (io_ReadFull s buf), buf, i + 1, numReads), (s, buf, i, numReads))
      \<in> measure (\<lambda>(s, buf, i, numReads). unat numReads - unat i)"
    by simp
qed

definition discardInput :: "rstate \<Rightarrow> uint32 \<Rightarrow> rstate" where
  "discardInput s n =
     (let maxSize = (10 * 1024 :: uint32);
          numReads = n div maxSize;
          bytesRemaining = n mod maxSize;
          s = (if n > 0
               then discardLoop (make_bytes s (unat maxSize)) (unat maxSize) 0 numReads
               else s)
      in if bytesRemaining > 0
         then fst (io_ReadFull (make_bytes s (unat bytesRemaining)) (unat bytesRemaining))
         else s)"

section \<open>Output sinks\<close>

text \<open>
  The state on the writing side: the bytes the \<open>io.Writer\<close> has accepted, and how many
  more it accepts (\<open>None\<close>: no limit, as a \<open>bytes.Buffer\<close>). A write beyond the limit
  is short: the sink takes what fits and the call fails.
\<close>

record wstate =
  written :: "byte list"
  room :: "nat option"

definition Write :: "wstate \<Rightarrow> byte list \<Rightarrow> wstate \<times> error option" where
  "Write w p =
     (case room w of
        None \<Rightarrow> (w\<lparr>written := written w @ p\<rparr>, None)
      | Some k \<Rightarrow>
          if length p \<le> k
          then (w\<lparr>written := written w @ p, room := Some (k - length p)\<rparr>, None)
          else (w\<lparr>written := written w @ take k p, room := Some 0\<rparr>, Some ErrShortWrite))"

definition Buffer :: wstate where
  "Buffer = \<lparr>written = [], room = None\<rparr>"

definition NewBuffer :: "byte list \<Rightarrow> rstate" where
  "NewBuffer buf = \<lparr>input = buf, reads = [], allocs = []\<rparr>"

section \<open>The primitive codec\<close>

text \<open>
  Modelled from the spec: \<open>readElement\<close>, \<open>readElements\<close>, \<open>writeElement\<close> and
  \<open>writeElements\<close> are not in the two source files. The spec has the primitive codec
  transcode fixed-width integers and fixed-size byte arrays in the protocol's fixed
  byte order, with the widths of its wire tables; the order is little-endian, as the
  Bitcoin wire format has it. One element is one full read or one write of its width;
  a list of elements is read or written in order and stops at the first error.
\<close>

definition readElement :: "rstate \<Rightarrow> rstate \<times> (error + 'a::len word)" where
  "readElement r =
     (case io_ReadFull r (LENGTH('a) div 8) of
        (r, Inl err) \<Rightarrow> (r, Inl err)
      | (r, Inr b) \<Rightarrow> (r, Inr (le_word b)))"

definition readArray :: "rstate \<Rightarrow> nat \<Rightarrow> rstate \<times> (error + byte list)" where
  "readArray r n = io_ReadFull r n"

definition writeElement :: "wstate \<Rightarrow> 'a::len word \<Rightarrow> wstate \<times> error option" where
  "writeElement w element = Write w (le_bytes (LENGTH('a) div 8) element)"

definition writeArray :: "wstate \<Rightarrow> byte list \<Rightarrow> wstate \<times> error option" where
  "writeArray w element = Write w element"

text \<open>
  Modelled from the spec: \<open>readVarInt\<close>, \<open>writeVarInt\<close>, \<open>readVarString\<close>,
  \<open>writeVarString\<close> and \<open>maxVarIntPayload\<close> are not in the two source files. The spec
  has a variable-length integer prefix the length of a string, with a maximum prefix
  size; the prefix is the Bitcoin wire format's: one byte below \<open>0xfd\<close>, else a
  discriminant byte \<open>0xfd\<close>, \<open>0xfe\<close>, \<open>0xff\<close> and the value in 2, 4, 8 little-endian
  bytes, so 9 bytes at most.
\<close>

definition maxVarIntPayload :: uint32 where
  "maxVarIntPayload = 9"

definition writeVarInt :: "wstate \<Rightarrow> uint32 \<Rightarrow> uint64 \<Rightarrow> wstate \<times> error option" where
  "writeVarInt w pver val =
     (if val < 0xfd then Write w [ucast val]
      else if val \<le> 0xffff then Write w (0xfd # le_bytes 2 val)
      else if val \<le> 0xffffffff then Write w (0xfe # le_bytes 4 val)
      else Write w (0xff # le_bytes 8 val))"

definition readVarInt :: "rstate \<Rightarrow> uint32 \<Rightarrow> rstate \<times> (error + uint64)" where
  "readVarInt r pver =
     (case readElement r of
        (r, Inl err) \<Rightarrow> (r, Inl err)
      | (r, Inr (discriminant :: byte)) \<Rightarrow>
          if discriminant = 0xff then
            (case io_ReadFull r 8 of
               (r, Inl err) \<Rightarrow> (r, Inl err)
             | (r, Inr b) \<Rightarrow> (r, Inr (le_word b)))
          else if discriminant = 0xfe then
            (case io_ReadFull r 4 of
               (r, Inl err) \<Rightarrow> (r, Inl err)
             | (r, Inr b) \<Rightarrow> (r, Inr (le_word b)))
          else if discriminant = 0xfd then
            (case io_ReadFull r 2 of
               (r, Inl err) \<Rightarrow> (r, Inl err)
             | (r, Inr b) \<Rightarrow> (r, Inr (le_word b)))
          else (r, Inr (ucast discriminant)))"

definition writeVarString :: "wstate \<Rightarrow> uint32 \<Rightarrow> string \<Rightarrow> wstate \<times> error option" where
  "writeVarString w pver str =
     (case writeVarInt w pver (of_nat (length str)) of
        (w, Some err) \<Rightarrow> (w, Some err)
      | (w, None) \<Rightarrow> Write w (bytes_of str))"

definition readVarString :: "rstate \<Rightarrow> uint32 \<Rightarrow> rstate \<times> (error + string)" where
  "readVarString r pver =
     (case readVarInt r pver of
        (r, Inl err) \<Rightarrow> (r, Inl err)
      | (r, Inr count) \<Rightarrow>
          (case io_ReadFull r (unat count) of
             (r, Inl err) \<Rightarrow> (r, Inl err)
           | (r, Inr buf) \<Rightarrow> (r, Inr (string_of buf))))"

text \<open>
  Modelled from the spec: the type \<open>NetAddress\<close>, \<open>readNetAddress\<close>, \<open>writeNetAddress\<close>
  and \<open>maxNetAddressPayload\<close> are not in the two source files. The spec has an address
  record carry its own service bitset beside the address, and a maximum record size
  that depends on the protocol version. The record is the Bitcoin wire format's:
  services (8 bytes, little-endian), the 16-byte IP address, the port (2 bytes,
  big-endian), 26 bytes. The last argument of the source's calls, \<open>false\<close> at all four
  call sites of the version message, asks for the record without the 4-byte time
  prefix that address lists carry from \<open>NetAddressTimeVersion\<close> on: the functions
  here are those calls, and only \<open>maxNetAddressPayload\<close> counts the prefix.
\<close>

record NetAddress =
  na_Services :: ServiceFlag
  na_IP :: "128 word"
  na_Port :: uint16

definition NetAddressTimeVersion :: uint32 where
  "NetAddressTimeVersion = 31402"

definition maxNetAddressPayload :: "uint32 \<Rightarrow> uint32" where
  "maxNetAddressPayload pver =
     (let plen = (26 :: uint32)
      in if pver \<ge> NetAddressTimeVersion then plen + 4 else plen)"

definition writeNetAddress :: "wstate \<Rightarrow> uint32 \<Rightarrow> NetAddress \<Rightarrow> wstate \<times> error option" where
  "writeNetAddress w pver na =
     (case writeElement w (na_Services na) of
        (w, Some err) \<Rightarrow> (w, Some err)
      | (w, None) \<Rightarrow>
     (case writeArray w (be_bytes 16 (na_IP na)) of
        (w, Some err) \<Rightarrow> (w, Some err)
      | (w, None) \<Rightarrow> Write w (be_bytes 2 (na_Port na))))"

definition readNetAddress :: "rstate \<Rightarrow> uint32 \<Rightarrow> rstate \<times> (error + NetAddress)" where
  "readNetAddress r pver =
     (case readElement r of
        (r, Inl err) \<Rightarrow> (r, Inl err)
      | (r, Inr services) \<Rightarrow>
     (case readArray r 16 of
        (r, Inl err) \<Rightarrow> (r, Inl err)
      | (r, Inr ip) \<Rightarrow>
     (case io_ReadFull r 2 of
        (r, Inl err) \<Rightarrow> (r, Inl err)
      | (r, Inr port) \<Rightarrow>
          (r, Inr \<lparr>na_Services = services, na_IP = be_word ip, na_Port = be_word port\<rparr>))))"

text \<open>
  Go's \<open>time.Time\<close>, as far as the version message uses it: the seconds since the Unix
  epoch and the nanoseconds within the second. \<open>t.Unix()\<close> gives the seconds;
  \<open>time.Unix(sec, nsec)\<close> builds the time.
\<close>

record Time =
  seconds :: int64
  nanoseconds :: nat

definition Unix :: "Time \<Rightarrow> int64" where
  "Unix t = seconds t"

definition time_Unix :: "int64 \<Rightarrow> nat \<Rightarrow> Time" where
  "time_Unix sec nsec =
     \<lparr>seconds = sec + of_nat (nsec div 1000000000), nanoseconds = nsec mod 1000000000\<rparr>"

text \<open>The zero \<open>time.Time\<close> is January 1 of year 1, 62135596800 seconds before the epoch.\<close>

definition zero_Time :: Time where
  "zero_Time = \<lparr>seconds = - 62135596800, nanoseconds = 0\<rparr>"

section \<open>MsgVersion (msgversion.go)\<close>

definition MaxUserAgentLen :: nat where
  "MaxUserAgentLen = 2000"

record MsgVersion =
  ProtocolVersion :: int32
  Services :: ServiceFlag
  Timestamp :: Time
  AddrYou :: NetAddress
  AddrMe :: NetAddress
  Nonce :: uint64
  UserAgent :: string
  LastBlock :: int32

definition HasService :: "MsgVersion \<Rightarrow> ServiceFlag \<Rightarrow> bool" where
  "HasService msg service =
     (if Services msg AND service = service then True else False)"

definition AddService :: "MsgVersion \<Rightarrow> ServiceFlag \<Rightarrow> MsgVersion" where
  "AddService msg service = msg\<lparr>Services := Services msg OR service\<rparr>"

text \<open>
  \<open>BtcDecode\<close> fills the receiver field by field: the fields read before an error stay
  set, so the receiver comes back with the reader and the error.
\<close>

definition BtcDecode :: "MsgVersion \<Rightarrow> rstate \<Rightarrow> uint32 \<Rightarrow> MsgVersion \<times> rstate \<times> error option" where
  "BtcDecode msg r pver =
     (case readElement r of
        (r, Inl err) \<Rightarrow> (msg, r, Some err)
      | (r, Inr v) \<Rightarrow> let msg = msg\<lparr>ProtocolVersion := v\<rparr> in
     (case readElement r of
        (r, Inl err) \<Rightarrow> (msg, r, Some err)
      | (r, Inr v) \<Rightarrow> let msg = msg\<lparr>Services := v\<rparr> in
     (case readElement r of
        (r, Inl err) \<Rightarrow> (msg, r, Some err)
      | (r, Inr sec) \<Rightarrow> let msg = msg\<lparr>Timestamp := time_Unix sec 0\<rparr> in
     (case readNetAddress r pver of
        (r, Inl err) \<Rightarrow> (msg, r, Some err)
      | (r, Inr na) \<Rightarrow> let msg = msg\<lparr>AddrYou := na\<rparr> in
     (case readNetAddress r pver of
        (r, Inl err) \<Rightarrow> (msg, r, Some err)
      | (r, Inr na) \<Rightarrow> let msg = msg\<lparr>AddrMe := na\<rparr> in
     (case readElement r of
        (r, Inl err) \<Rightarrow> (msg, r, Some err)
      | (r, Inr v) \<Rightarrow> let msg = msg\<lparr>Nonce := v\<rparr> in
     (case readVarString r pver of
        (r, Inl err) \<Rightarrow> (msg, r, Some err)
      | (r, Inr userAgent) \<Rightarrow>
          if length userAgent > MaxUserAgentLen
          then (msg, r, Some (messageError ''MsgVersion.BtcDecode''
                  (UserAgentTooLong (length userAgent) MaxUserAgentLen)))
          else let msg = msg\<lparr>UserAgent := userAgent\<rparr> in
     (case readElement r of
        (r, Inl err) \<Rightarrow> (msg, r, Some err)
      | (r, Inr v) \<Rightarrow> (msg\<lparr>LastBlock := v\<rparr>, r, None)))))))))"

definition BtcEncode :: "MsgVersion \<Rightarrow> wstate \<Rightarrow> uint32 \<Rightarrow> wstate \<times> error option" where
  "BtcEncode msg w pver =
     (if length (UserAgent msg) > MaxUserAgentLen
      then (w, Some (messageError ''MsgVersion.BtcEncode''
              (UserAgentTooLong (length (UserAgent msg)) MaxUserAgentLen)))
      else
     (case writeElement w (ProtocolVersion msg) of
        (w, Some err) \<Rightarrow> (w, Some err)
      | (w, None) \<Rightarrow>
     (case writeElement w (Services msg) of
        (w, Some err) \<Rightarrow> (w, Some err)
      | (w, None) \<Rightarrow>
     (case writeElement w (Unix (Timestamp msg)) of
        (w, Some err) \<Rightarrow> (w, Some err)
      | (w, None) \<Rightarrow>
     (case writeNetAddress w pver (AddrYou msg) of
        (w, Some err) \<Rightarrow> (w, Some err)
      | (w, None) \<Rightarrow>
     (case writeNetAddress w pver (AddrMe msg) of
        (w, Some err) \<Rightarrow> (w, Some err)
      | (w, None) \<Rightarrow>
     (case writeElement w (Nonce msg) of
        (w, Some err) \<Rightarrow> (w, Some err)
      | (w, None) \<Rightarrow>
     (case writeVarString w pver (UserAgent msg) of
        (w, Some err) \<Rightarrow> (w, Some err)
      | (w, None) \<Rightarrow>
     (case writeElement w (LastBlock msg) of
        (w, Some err) \<Rightarrow> (w, Some err)
      | (w, None) \<Rightarrow> (w, None))))))))))"

definition cmdVersion :: string where "cmdVersion = ''version''"
definition cmdVerAck :: string where "cmdVerAck = ''verack''"
definition cmdGetAddr :: string where "cmdGetAddr = ''getaddr''"
definition cmdAddr :: string where "cmdAddr = ''addr''"
definition cmdGetBlocks :: string where "cmdGetBlocks = ''getblocks''"
definition cmdInv :: string where "cmdInv = ''inv''"
definition cmdGetData :: string where "cmdGetData = ''getdata''"
definition cmdNotFound :: string where "cmdNotFound = ''notfound''"
definition cmdBlock :: string where "cmdBlock = ''block''"
definition cmdTx :: string where "cmdTx = ''tx''"
definition cmdGetHeaders :: string where "cmdGetHeaders = ''getheaders''"
definition cmdHeaders :: string where "cmdHeaders = ''headers''"
definition cmdPing :: string where "cmdPing = ''ping''"
definition cmdPong :: string where "cmdPong = ''pong''"
definition cmdAlert :: string where "cmdAlert = ''alert''"
definition cmdMemPool :: string where "cmdMemPool = ''mempool''"

definition Command :: "MsgVersion \<Rightarrow> string" where
  "Command msg = cmdVersion"

definition MaxPayloadLength :: "MsgVersion \<Rightarrow> uint32 \<Rightarrow> uint32" where
  "MaxPayloadLength msg pver =
     32 + (maxNetAddressPayload pver * 2) + maxVarIntPayload + of_nat MaxUserAgentLen"

section \<open>Messages (the interface \<open>Message\<close>)\<close>

text \<open>
  \<open>commandSize\<close> is the fixed width of the command in the header, \<open>maxMessagePayload\<close>
  the most bytes a payload can have whatever its type.
\<close>

definition commandSize :: nat where
  "commandSize = 12"

definition maxMessagePayload :: nat where
  "maxMessagePayload = 1024 * 1024 * 32"

text \<open>
  Of the sixteen types that \<open>makeEmptyMessage\<close> constructs, only \<open>MsgVersion\<close> is in the
  source files. The other fifteen struct types are a tag and a value of a type
  parameter \<open>'x\<close>, and their methods (with the empty value \<open>&T{}\<close>) are a parameter of
  every function that calls through the interface.
\<close>

datatype msgtype =
    MsgVerAck | MsgGetAddr | MsgAddr | MsgGetBlocks | MsgBlock | MsgInv | MsgGetData
  | MsgNotFound | MsgTx | MsgPing | MsgPong | MsgGetHeaders | MsgHeaders | MsgAlert
  | MsgMemPool

datatype 'x Message =
    Version MsgVersion
  | Other msgtype 'x

record 'x methods =
  m_empty :: "msgtype \<Rightarrow> 'x"
  m_BtcDecode :: "msgtype \<Rightarrow> 'x \<Rightarrow> rstate \<Rightarrow> uint32 \<Rightarrow> 'x \<times> rstate \<times> error option"
  m_BtcEncode :: "msgtype \<Rightarrow> 'x \<Rightarrow> wstate \<Rightarrow> uint32 \<Rightarrow> wstate \<times> error option"
  m_Command :: "msgtype \<Rightarrow> 'x \<Rightarrow> string"
  m_MaxPayloadLength :: "msgtype \<Rightarrow> 'x \<Rightarrow> uint32 \<Rightarrow> uint32"

fun Message_BtcDecode ::
  "'x methods \<Rightarrow> 'x Message \<Rightarrow> rstate \<Rightarrow> uint32 \<Rightarrow> 'x Message \<times> rstate \<times> error option" where
  "Message_BtcDecode ops (Version m) r pver =
     (case BtcDecode m r pver of (m, r, err) \<Rightarrow> (Version m, r, err))"
| "Message_BtcDecode ops (Other t x) r pver =
     (case m_BtcDecode ops t x r pver of (x, r, err) \<Rightarrow> (Other t x, r, err))"

fun Message_BtcEncode ::
  "'x methods \<Rightarrow> 'x Message \<Rightarrow> wstate \<Rightarrow> uint32 \<Rightarrow> wstate \<times> error option" where
  "Message_BtcEncode ops (Version m) w pver = BtcEncode m w pver"
| "Message_BtcEncode ops (Other t x) w pver = m_BtcEncode ops t x w pver"

fun Message_Command :: "'x methods \<Rightarrow> 'x Message \<Rightarrow> string" where
  "Message_Command ops (Version m) = Command m"
| "Message_Command ops (Other t x) = m_Command ops t x"

fun Message_MaxPayloadLength :: "'x methods \<Rightarrow> 'x Message \<Rightarrow> uint32 \<Rightarrow> uint32" where
  "Message_MaxPayloadLength ops (Version m) pver = MaxPayloadLength m pver"
| "Message_MaxPayloadLength ops (Other t x) pver = m_MaxPayloadLength ops t x pver"

text \<open>The composite literal \<open>&MsgVersion{}\<close>: every field has its zero value.\<close>

definition empty_NetAddress :: NetAddress where
  "empty_NetAddress = \<lparr>na_Services = 0, na_IP = 0, na_Port = 0\<rparr>"

definition empty_MsgVersion :: MsgVersion where
  "empty_MsgVersion =
     \<lparr>ProtocolVersion = 0, Services = 0, Timestamp = zero_Time,
      AddrYou = empty_NetAddress, AddrMe = empty_NetAddress, Nonce = 0,
      UserAgent = [], LastBlock = 0\<rparr>"

definition makeEmptyMessage :: "'x methods \<Rightarrow> string \<Rightarrow> error + 'x Message" where
  "makeEmptyMessage ops command =
     (if command = cmdVersion then Inr (Version empty_MsgVersion)
      else if command = cmdVerAck then Inr (Other MsgVerAck (m_empty ops MsgVerAck))
      else if command = cmdGetAddr then Inr (Other MsgGetAddr (m_empty ops MsgGetAddr))
      else if command = cmdAddr then Inr (Other MsgAddr (m_empty ops MsgAddr))
      else if command = cmdGetBlocks then Inr (Other MsgGetBlocks (m_empty ops MsgGetBlocks))
      else if command = cmdBlock then Inr (Other MsgBlock (m_empty ops MsgBlock))
      else if command = cmdInv then Inr (Other MsgInv (m_empty ops MsgInv))
      else if command = cmdGetData then Inr (Other MsgGetData (m_empty ops MsgGetData))
      else if command = cmdNotFound then Inr (Other MsgNotFound (m_empty ops MsgNotFound))
      else if command = cmdTx then Inr (Other MsgTx (m_empty ops MsgTx))
      else if command = cmdPing then Inr (Other MsgPing (m_empty ops MsgPing))
      else if command = cmdPong then Inr (Other MsgPong (m_empty ops MsgPong))
      else if command = cmdGetHeaders then Inr (Other MsgGetHeaders (m_empty ops MsgGetHeaders))
      else if command = cmdHeaders then Inr (Other MsgHeaders (m_empty ops MsgHeaders))
      else if command = cmdAlert then Inr (Other MsgAlert (m_empty ops MsgAlert))
      else if command = cmdMemPool then Inr (Other MsgMemPool (m_empty ops MsgMemPool))
      else Inl (Errorf (UnhandledCommand command)))"

section \<open>The message header\<close>

record messageHeader =
  magic :: BitcoinNet
  command :: string
  length' :: uint32
  checksum :: "byte list"

text \<open>
  \<open>bytes.TrimRight(s, cutset)\<close> drops the trailing bytes of \<open>s\<close> that are in the cutset
  (here the one byte 0), and \<open>copy(dst, src)\<close> overwrites the front of \<open>dst\<close>.
\<close>

definition TrimRight :: "byte list \<Rightarrow> byte list \<Rightarrow> byte list" where
  "TrimRight s cutset = rev (dropWhile (\<lambda>b. b \<in> set cutset) (rev s))"

definition copy :: "byte list \<Rightarrow> byte list \<Rightarrow> byte list" where
  "copy dst src = take (length dst) src @ drop (length src) dst"

definition readMessageHeader :: "rstate \<Rightarrow> rstate \<times> (error + messageHeader)" where
  "readMessageHeader r =
     (case readElement r of
        (r, Inl err) \<Rightarrow> (r, Inl err)
      | (r, Inr hmagic) \<Rightarrow>
     (case readArray r commandSize of
        (r, Inl err) \<Rightarrow> (r, Inl err)
      | (r, Inr cmd) \<Rightarrow>
     (case readElement r of
        (r, Inl err) \<Rightarrow> (r, Inl err)
      | (r, Inr hlength) \<Rightarrow>
     (case readArray r 4 of
        (r, Inl err) \<Rightarrow> (r, Inl err)
      | (r, Inr hchecksum) \<Rightarrow>
          (r, Inr \<lparr>magic = hmagic, command = string_of (TrimRight cmd [0]),
                    length' = hlength, checksum = hchecksum\<rparr>)))))"

text \<open>
  \<open>utf8.ValidString\<close>: the bytes are a sequence of well-formed UTF-8 encodings (no
  overlong form, no surrogate, nothing above U+10FFFF).
\<close>

definition cont :: "byte \<Rightarrow> bool" where
  "cont c = (0x80 \<le> c \<and> c \<le> 0xBF)"

fun ValidBytes :: "byte list \<Rightarrow> bool" where
  "ValidBytes [] = True"
| "ValidBytes (b # bs) =
     (if b < 0x80 then ValidBytes bs
      else if 0xC2 \<le> b \<and> b \<le> 0xDF then
        (case bs of c1 # t \<Rightarrow> cont c1 \<and> ValidBytes t | _ \<Rightarrow> False)
      else if b = 0xE0 then
        (case bs of c1 # c2 # t \<Rightarrow> 0xA0 \<le> c1 \<and> c1 \<le> 0xBF \<and> cont c2 \<and> ValidBytes t
         | _ \<Rightarrow> False)
      else if b = 0xED then
        (case bs of c1 # c2 # t \<Rightarrow> 0x80 \<le> c1 \<and> c1 \<le> 0x9F \<and> cont c2 \<and> ValidBytes t
         | _ \<Rightarrow> False)
      else if 0xE1 \<le> b \<and> b \<le> 0xEF then
        (case bs of c1 # c2 # t \<Rightarrow> cont c1 \<and> cont c2 \<and> ValidBytes t | _ \<Rightarrow> False)
      else if b = 0xF0 then
        (case bs of c1 # c2 # c3 # t \<Rightarrow>
           0x90 \<le> c1 \<and> c1 \<le> 0xBF \<and> cont c2 \<and> cont c3 \<and> ValidBytes t
         | _ \<Rightarrow> False)
      else if b = 0xF4 then
        (case bs of c1 # c2 # c3 # t \<Rightarrow>
           0x80 \<le> c1 \<and> c1 \<le> 0x8F \<and> cont c2 \<and> cont c3 \<and> ValidBytes t
         | _ \<Rightarrow> False)
      else if 0xF1 \<le> b \<and> b \<le> 0xF3 then
        (case bs of c1 # c2 # c3 # t \<Rightarrow> cont c1 \<and> cont c2 \<and> cont c3 \<and> ValidBytes t
         | _ \<Rightarrow> False)
      else False)"

definition utf8_ValidString :: "string \<Rightarrow> bool" where
  "utf8_ValidString s = ValidBytes (bytes_of s)"

section \<open>WriteMessage and ReadMessage\<close>

text \<open>
  \<open>DoubleSha256\<close> is not in the source files and is a parameter: a function from the
  payload to a 256-bit digest, whose 32 bytes are its big-endian image, so that the slice
  \<open>[0:4]\<close> is the four leading bytes.
\<close>

definition digest_bytes :: "256 word \<Rightarrow> byte list" where
  "digest_bytes d = be_bytes 32 d"

definition WriteMessage ::
  "'x methods \<Rightarrow> (byte list \<Rightarrow> 256 word) \<Rightarrow> wstate \<Rightarrow> 'x Message \<Rightarrow> uint32 \<Rightarrow> BitcoinNet
     \<Rightarrow> wstate \<times> error option" where
  "WriteMessage ops DoubleSha256 w msg pver btcnet =
     (let cmd = Message_Command ops msg in
      if length cmd > commandSize
      then (w, Some (messageError ''WriteMessage'' (CommandTooLong cmd commandSize)))
      else
        let command = copy (replicate commandSize 0) (bytes_of cmd) in
        (case Message_BtcEncode ops msg Buffer pver of
           (bw, Some err) \<Rightarrow> (w, Some err)
         | (bw, None) \<Rightarrow>
             let payload = written bw; lenp = length payload in
             if lenp > maxMessagePayload
             then (w, Some (messageError ''WriteMessage''
                     (EncodedTooLarge lenp maxMessagePayload)))
             else
               let mpl = Message_MaxPayloadLength ops msg pver in
               if (of_nat lenp :: uint32) > mpl
               then (w, Some (messageError ''WriteMessage''
                       (EncodedExceedsType lenp cmd mpl)))
               else
                 let hdr = \<lparr>magic = btcnet, command = cmd, length' = of_nat lenp,
                            checksum = copy (replicate 4 0)
                                         (take 4 (digest_bytes (DoubleSha256 payload)))\<rparr> in
                 (case writeElement w (magic hdr) of
                    (w, Some err) \<Rightarrow> (w, Some err)
                  | (w, None) \<Rightarrow>
                 (case writeArray w command of
                    (w, Some err) \<Rightarrow> (w, Some err)
                  | (w, None) \<Rightarrow>
                 (case writeElement w (length' hdr) of
                    (w, Some err) \<Rightarrow> (w, Some err)
                  | (w, None) \<Rightarrow>
                 (case writeArray w (checksum hdr) of
                    (w, Some err) \<Rightarrow> (w, Some err)
                  | (w, None) \<Rightarrow>
                 (case Write w payload of
                    (w, Some err) \<Rightarrow> (w, Some err)
                  | (w, None) \<Rightarrow> (w, None))))))))"

definition ReadMessage ::
  "'x methods \<Rightarrow> (byte list \<Rightarrow> 256 word) \<Rightarrow> rstate \<Rightarrow> uint32 \<Rightarrow> BitcoinNet
     \<Rightarrow> rstate \<times> (error + 'x Message \<times> byte list)" where
  "ReadMessage ops DoubleSha256 r pver btcnet =
     (case readMessageHeader r of
        (r, Inl err) \<Rightarrow> (r, Inl err)
      | (r, Inr hdr) \<Rightarrow>
          if length' hdr > of_nat maxMessagePayload
          then (r, Inl (messageError ''ReadMessage''
                  (HeaderTooLarge (length' hdr) maxMessagePayload)))
          else if magic hdr \<noteq> btcnet
          then (discardInput r (length' hdr),
                Inl (messageError ''ReadMessage'' (OtherNetwork (magic hdr))))
          else
            let cmd = command hdr in
            if \<not> utf8_ValidString cmd
            then (discardInput r (length' hdr),
                  Inl (messageError ''ReadMessage'' (InvalidCommand (bytes_of cmd))))
            else
              (case makeEmptyMessage ops cmd of
                 Inl err \<Rightarrow>
                   (discardInput r (length' hdr),
                    Inl (messageError ''ReadMessage'' (Error_text err)))
               | Inr msg \<Rightarrow>
                   let mpl = Message_MaxPayloadLength ops msg pver in
                   if length' hdr > mpl
                   then (discardInput r (length' hdr),
                         Inl (messageError ''ReadMessage''
                           (PayloadExceedsType (length' hdr) cmd mpl)))
                   else
                     (case io_ReadFull (make_bytes r (unat (length' hdr))) (unat (length' hdr)) of
                        (r, Inl err) \<Rightarrow> (r, Inl err)
                      | (r, Inr payload) \<Rightarrow>
                          let sum = take 4 (digest_bytes (DoubleSha256 payload)) in
                          if sum \<noteq> checksum hdr
                          then (r, Inl (messageError ''ReadMessage''
                                  (ChecksumFailed (checksum hdr) sum)))
                          else
                            (case Message_BtcDecode ops msg (NewBuffer payload) pver of
                               (msg, pr, Some err) \<Rightarrow> (r, Inl err)
                             | (msg, pr, None) \<Rightarrow> (r, Inr (msg, payload))))))"

section \<open>Traces of the discard utility\<close>

text \<open>
  What the spec says of the discard utility, as traces: the requests are the full chunks
  followed by the remainder when there is one, and the buffers are one chunk (when
  anything is to be discarded) and one for the remainder.
\<close>

definition discard_requests :: "nat \<Rightarrow> nat list" where
  "discard_requests n =
     replicate (n div 10240) 10240 @ (if n mod 10240 = 0 then [] else [n mod 10240])"

definition discard_buffers :: "nat \<Rightarrow> nat list" where
  "discard_buffers n =
     (if n = 0 then [] else [10240]) @ (if n mod 10240 = 0 then [] else [n mod 10240])"

section \<open>Sample parameters\<close>

text \<open>
  An instance of the parameters, for evaluating the functions on concrete streams: the
  fifteen other types as messages with an empty payload (as \<open>verack\<close> has), each under
  its own command, and a digest whose four leading bytes are the sum of the payload's
  bytes.
\<close>

fun sample_Command :: "msgtype \<Rightarrow> string" where
  "sample_Command MsgVerAck = cmdVerAck"
| "sample_Command MsgGetAddr = cmdGetAddr"
| "sample_Command MsgAddr = cmdAddr"
| "sample_Command MsgGetBlocks = cmdGetBlocks"
| "sample_Command MsgBlock = cmdBlock"
| "sample_Command MsgInv = cmdInv"
| "sample_Command MsgGetData = cmdGetData"
| "sample_Command MsgNotFound = cmdNotFound"
| "sample_Command MsgTx = cmdTx"
| "sample_Command MsgPing = cmdPing"
| "sample_Command MsgPong = cmdPong"
| "sample_Command MsgGetHeaders = cmdGetHeaders"
| "sample_Command MsgHeaders = cmdHeaders"
| "sample_Command MsgAlert = cmdAlert"
| "sample_Command MsgMemPool = cmdMemPool"

definition sample_methods :: "unit methods" where
  "sample_methods =
     \<lparr>m_empty = (\<lambda>t. ()),
      m_BtcDecode = (\<lambda>t x r pver. (x, r, None)),
      m_BtcEncode = (\<lambda>t x w pver. (w, None)),
      m_Command = (\<lambda>t x. sample_Command t),
      m_MaxPayloadLength = (\<lambda>t x pver. 0)\<rparr>"

definition sample_digest :: "byte list \<Rightarrow> 256 word" where
  "sample_digest p = push_bit 224 (of_nat (sum_list (map unat p)))"

section \<open>The known commands\<close>

text \<open>The fixed set of commands the spec lists for the registry.\<close>

definition known_commands :: "string list" where
  "known_commands =
     [''version'', ''verack'', ''getaddr'', ''addr'', ''getblocks'', ''inv'', ''getdata'',
      ''notfound'', ''block'', ''tx'', ''getheaders'', ''headers'', ''ping'', ''pong'',
      ''alert'', ''mempool'']"

section \<open>The fixed-width fields of a version payload\<close>

text \<open>
  What the first 80 bytes of a version payload say, field by field, as the wire layout of
  the spec has them: protocol version (4), services (8), timestamp (8), the two address
  records (26 each), nonce (8). The user agent and the last block follow.
\<close>

definition fixed_fields :: "MsgVersion \<Rightarrow> byte list \<Rightarrow> MsgVersion" where
  "fixed_fields msg b =
     msg\<lparr>ProtocolVersion := le_word (take 4 b),
         Services := le_word (take 8 (drop 4 b)),
         Timestamp := time_Unix (le_word (take 8 (drop 12 b))) 0,
         AddrYou := \<lparr>na_Services = le_word (take 8 (drop 20 b)),
                     na_IP = be_word (take 16 (drop 28 b)),
                     na_Port = be_word (take 2 (drop 44 b))\<rparr>,
         AddrMe := \<lparr>na_Services = le_word (take 8 (drop 46 b)),
                    na_IP = be_word (take 16 (drop 54 b)),
                    na_Port = be_word (take 2 (drop 70 b))\<rparr>,
         Nonce := le_word (take 8 (drop 72 b))\<rparr>"

section \<open>The wire layout of a version payload\<close>

text \<open>
  The layout that the spec gives for the payload of a version message, in order:
  protocol version (4 bytes), services (8), timestamp in seconds (8), the receiver's
  and the sender's address records, nonce (8), the user agent with its length prefix,
  last block (4). The length prefix and the address record are those of the primitive
  codec above.
\<close>

definition var_int :: "uint64 \<Rightarrow> byte list" where
  "var_int v =
     (if v < 0xfd then [ucast v]
      else if v \<le> 0xffff then 0xfd # le_bytes 2 v
      else if v \<le> 0xffffffff then 0xfe # le_bytes 4 v
      else 0xff # le_bytes 8 v)"

definition address_record :: "NetAddress \<Rightarrow> byte list" where
  "address_record na =
     le_bytes 8 (na_Services na) @ be_bytes 16 (na_IP na) @ be_bytes 2 (na_Port na)"

definition version_payload :: "MsgVersion \<Rightarrow> byte list" where
  "version_payload m =
     le_bytes 4 (ProtocolVersion m) @ le_bytes 8 (Services m)
       @ le_bytes 8 (Unix (Timestamp m))
       @ address_record (AddrYou m) @ address_record (AddrMe m)
       @ le_bytes 8 (Nonce m)
       @ var_int (of_nat (length (UserAgent m))) @ bytes_of (UserAgent m)
       @ le_bytes 4 (LastBlock m)"

text \<open>
  The frame that the spec's wire envelope describes: network id (4 bytes), the command
  padded with zero bytes to 12, the payload length (4), the checksum (4), the payload.
\<close>

definition frame :: "BitcoinNet \<Rightarrow> string \<Rightarrow> byte list \<Rightarrow> byte list \<Rightarrow> byte list" where
  "frame btcnet cmd csum payload =
     le_bytes 4 btcnet @ (bytes_of cmd @ replicate (12 - length cmd) 0)
       @ le_bytes 4 (of_nat (length payload) :: uint32) @ csum @ payload"

section \<open>Service flags\<close>

text \<open>
  C10. After \<open>AddService s\<close> the message has service \<open>s\<close>; \<open>HasService s\<close> holds exactly
  when every bit of \<open>s\<close> is set in \<open>Services\<close>; \<open>AddService\<close> sets \<open>Services\<close> to its
  bitwise or with \<open>s\<close> and changes no other field.
\<close>

theorem AddService_HasService:
  "HasService (AddService m s) s
   \<and> (HasService m s \<longleftrightarrow> (\<forall>n. bit s n \<longrightarrow> bit (Services m) n))
   \<and> Services (AddService m s) = Services m OR s
   \<and> AddService m s = m\<lparr>Services := Services (AddService m s)\<rparr>
   \<and> ProtocolVersion (AddService m s) = ProtocolVersion m
   \<and> Timestamp (AddService m s) = Timestamp m
   \<and> AddrYou (AddService m s) = AddrYou m
   \<and> AddrMe (AddService m s) = AddrMe m
   \<and> Nonce (AddService m s) = Nonce m
   \<and> UserAgent (AddService m s) = UserAgent m
   \<and> LastBlock (AddService m s) = LastBlock m"
proof -
  have bits: "(a AND s = s) \<longleftrightarrow> (\<forall>n. bit s n \<longrightarrow> bit a n)" for a :: ServiceFlag
  proof
    assume "a AND s = s"
    then show "\<forall>n. bit s n \<longrightarrow> bit a n"
      by (metis bit_and_iff)
  next
    assume "\<forall>n. bit s n \<longrightarrow> bit a n"
    then show "a AND s = s"
      by (intro bit_eqI) (auto simp: bit_and_iff)
  qed
  have "(Services m OR s) AND s = s"
    by (simp add: bit_eq_iff bit_and_iff bit_or_iff)
  then have "HasService (AddService m s) s"
    by (simp add: HasService_def AddService_def)
  moreover have "HasService m s \<longleftrightarrow> (\<forall>n. bit s n \<longrightarrow> bit (Services m) n)"
    using bits [of "Services m"] by (simp add: HasService_def)
  ultimately show ?thesis
    by (simp add: AddService_def)
qed

section \<open>The discard utility\<close>

declare discardLoop.simps [simp del]

lemma fst_io_ReadFull:
  "0 < n \<Longrightarrow> fst (io_ReadFull s n) = s\<lparr>input := drop n (input s), reads := reads s @ [n]\<rparr>"
  by (simp add: io_ReadFull_def)

lemma unat_succ_less:
  fixes i :: uint32
  assumes "i < k"
  shows "unat (i + 1) = Suc (unat i)"
proof -
  from assms have "i \<noteq> - 1"
    by (metis word_order.extremum_strict)
  then have "1 + i \<noteq> 0"
    by (metis add.commute add_neg_numeral_special(8) add_right_cancel)
  then show ?thesis
    by (simp add: unatSuc add.commute)
qed

lemma discardLoop_eq:
  "0 < buf \<Longrightarrow> i \<le> numReads \<Longrightarrow>
   discardLoop s buf i numReads =
     s\<lparr>input := drop ((unat numReads - unat i) * buf) (input s),
       reads := reads s @ replicate (unat numReads - unat i) buf\<rparr>"
proof (induction s buf i numReads rule: discardLoop.induct)
  case (1 s buf i numReads)
  show ?case
  proof (cases "i < numReads")
    case True
    then have suc: "unat (i + 1) = Suc (unat i)"
      by (rule unat_succ_less)
    from True have lt: "unat i < unat numReads"
      by (simp add: word_less_nat_alt)
    then have le: "i + 1 \<le> numReads"
      using suc by (simp add: word_le_nat_alt)
    obtain d where d: "unat numReads - unat i = Suc d"
      using lt by (metis Suc_diff_Suc)
    then have d': "unat numReads - Suc (unat i) = d"
      by simp
    have "discardLoop s buf i numReads =
          discardLoop (fst (io_ReadFull s buf)) buf (i + 1) numReads"
      using True by (subst discardLoop.simps) simp
    also have "\<dots> = (fst (io_ReadFull s buf))
        \<lparr>input := drop ((unat numReads - unat (i + 1)) * buf) (input (fst (io_ReadFull s buf))),
         reads := reads (fst (io_ReadFull s buf)) @ replicate (unat numReads - unat (i + 1)) buf\<rparr>"
      using "1.IH" [OF True "1.prems"(1) le] .
    also have "\<dots> = s\<lparr>input := drop ((unat numReads - unat i) * buf) (input s),
                       reads := reads s @ replicate (unat numReads - unat i) buf\<rparr>"
      using "1.prems"(1) by (simp add: fst_io_ReadFull suc d d' add.commute [of buf])
    finally show ?thesis .
  next
    case False
    with "1.prems" have "i = numReads"
      by simp
    then show ?thesis
      by (subst discardLoop.simps) simp
  qed
qed

lemma unat_maxSize: "unat (10240 :: uint32) = 10240"
  by simp

lemma discardInput_eq:
  "discardInput s n =
     s\<lparr>input := drop (unat n) (input s),
       reads := reads s @ discard_requests (unat n),
       allocs := allocs s @ discard_buffers (unat n)\<rparr>"
proof (cases "n = 0")
  case True
  then show ?thesis
    by (simp add: discardInput_def discard_requests_def discard_buffers_def)
next
  case False
  then have pos: "0 < n"
    by (simp add: word_neq_0_conv)
  have un: "unat n \<noteq> 0"
    using False by (simp add: unat_eq_0)
  have dv: "unat (n div 10240) = unat n div 10240"
    by (simp add: unat_div)
  have md: "unat (n mod 10240) = unat n mod 10240"
    by (simp add: unat_mod)
  have rem: "(0 < n mod 10240) = (unat n mod 10240 \<noteq> 0)"
    by (metis md unat_eq_0 word_neq_0_conv)
  have split: "unat n mod 10240 + unat n div 10240 * 10240 = unat n"
    by simp
  show ?thesis
  proof (cases "unat n mod 10240 = 0")
    case True
    then show ?thesis
      using pos un rem split
      by (simp add: discardInput_def discardLoop_eq make_bytes_def dv md unat_maxSize
            discard_requests_def discard_buffers_def)
  next
    case False
    then show ?thesis
      using pos un rem split
      by (simp add: discardInput_def discardLoop_eq make_bytes_def dv md fst_io_ReadFull
            unat_maxSize discard_requests_def discard_buffers_def)
  qed
qed

lemma sum_list_discard_requests: "sum_list (discard_requests n) = n"
proof -
  have "n div 10240 * 10240 + n mod 10240 = n"
    by (rule div_mult_mod_eq)
  then show ?thesis
    by (auto simp: discard_requests_def sum_list_replicate)
qed

lemma ceiling_chunks:
  fixes n :: nat
  shows "(n + 10239) div 10240 = n div 10240 + (if n mod 10240 = 0 then 0 else 1)"
proof -
  define q where "q = n div 10240"
  define r where "r = n mod 10240"
  have r: "r < 10240"
    by (simp add: r_def)
  have n: "n = r + q * 10240"
    by (simp add: q_def r_def)
  have "(n + 10239) div 10240 = (r + 10239 + q * 10240) div 10240"
    by (simp add: n)
  also have "\<dots> = q + (r + 10239) div 10240"
    by simp
  also have "(r + 10239) div 10240 = (if r = 0 then 0 else 1)"
  proof (cases "r = 0")
    case True
    then show ?thesis by simp
  next
    case False
    then have "(r + 10239) div 10240 = 1"
      using r by (intro div_nat_eqI) simp_all
    with False show ?thesis by simp
  qed
  finally show ?thesis
    by (simp add: q_def r_def)
qed

lemma length_discard_requests: "length (discard_requests n) = (n + 10239) div 10240"
  by (simp add: discard_requests_def ceiling_chunks)

lemma bound_discard_requests: "k \<in> set (discard_requests n) \<Longrightarrow> 0 < k \<and> k \<le> 10240"
  by (auto simp: discard_requests_def split: if_splits)

lemma bound_discard_buffers: "k \<in> set (discard_buffers n) \<Longrightarrow> k \<le> 10240"
  by (auto simp: discard_buffers_def split: if_splits)

text \<open>
  C9. For every \<open>n\<close> and every stream, \<open>discardInput\<close> asks the stream for the full
  chunks of 10240 bytes and then for the remainder when it is not zero: \<open>\<lceil>n / 10240\<rceil>\<close>
  requests, none above 10240 bytes, \<open>n\<close> bytes in all, and the bytes the stream has are
  dropped up to \<open>n\<close>. It makes at most two buffers, none above 10240 bytes. This holds for
  every stream, also one that ends early: a failed read changes nothing in what is asked
  next, and \<open>discardInput\<close> has no error result.
\<close>

theorem discardInput_requests:
  "reads (discardInput s n) = reads s @ discard_requests (unat n)
   \<and> discard_requests (unat n) =
       replicate (unat n div 10240) 10240
         @ (if unat n mod 10240 = 0 then [] else [unat n mod 10240])
   \<and> length (discard_requests (unat n)) = (unat n + 10239) div 10240
   \<and> sum_list (discard_requests (unat n)) = unat n
   \<and> (\<forall>k \<in> set (discard_requests (unat n)). 0 < k \<and> k \<le> 10240)
   \<and> input (discardInput s n) = drop (unat n) (input s)
   \<and> allocs (discardInput s n) = allocs s @ discard_buffers (unat n)
   \<and> length (discard_buffers (unat n)) \<le> 2
   \<and> (\<forall>k \<in> set (discard_buffers (unat n)). k \<le> 10240)"
proof (intro conjI)
  show "reads (discardInput s n) = reads s @ discard_requests (unat n)"
    by (simp add: discardInput_eq)
  show "discard_requests (unat n) =
       replicate (unat n div 10240) 10240
         @ (if unat n mod 10240 = 0 then [] else [unat n mod 10240])"
    by (simp only: discard_requests_def)
  show "length (discard_requests (unat n)) = (unat n + 10239) div 10240"
    by (rule length_discard_requests)
  show "sum_list (discard_requests (unat n)) = unat n"
    by (rule sum_list_discard_requests)
  show "\<forall>k \<in> set (discard_requests (unat n)). 0 < k \<and> k \<le> 10240"
    using bound_discard_requests by blast
  show "input (discardInput s n) = drop (unat n) (input s)"
    by (simp add: discardInput_eq)
  show "allocs (discardInput s n) = allocs s @ discard_buffers (unat n)"
    by (simp add: discardInput_eq)
  show "length (discard_buffers (unat n)) \<le> 2"
    by (simp add: discard_buffers_def)
  show "\<forall>k \<in> set (discard_buffers (unat n)). k \<le> 10240"
    using bound_discard_buffers by blast
qed

theorem AddService_HasService_witness:
  "HasService (AddService empty_MsgVersion 5) 5
   \<and> \<not> HasService (AddService empty_MsgVersion 4) 5
   \<and> bit (5 :: ServiceFlag) 2
   \<and> bit (Services (AddService empty_MsgVersion 5)) 2
   \<and> \<not> bit (Services (AddService empty_MsgVersion 4)) 0
   \<and> Services (AddService empty_MsgVersion 5) = 5"
proof -
  have five: "Services (AddService empty_MsgVersion 5) = 5"
    using AddService_HasService [of empty_MsgVersion 5] by (simp add: empty_MsgVersion_def)
  have four: "Services (AddService empty_MsgVersion 4) = 4"
    using AddService_HasService [of empty_MsgVersion 4] by (simp add: empty_MsgVersion_def)
  have b5: "bit (5 :: ServiceFlag) 2"
    by code_simp
  have b4: "\<not> bit (4 :: ServiceFlag) 0"
    by code_simp
  have "\<not> HasService (AddService empty_MsgVersion 4) 5"
  proof
    assume "HasService (AddService empty_MsgVersion 4) 5"
    then have "\<forall>n. bit (5 :: ServiceFlag) n \<longrightarrow> bit (Services (AddService empty_MsgVersion 4)) n"
      using AddService_HasService [of "AddService empty_MsgVersion 4" 5] by simp
    moreover have "bit (5 :: ServiceFlag) 0"
      by code_simp
    ultimately have "bit (Services (AddService empty_MsgVersion 4)) 0"
      by blast
    then have "bit (4 :: ServiceFlag) 0"
      by (simp only: four)
    with b4 show False
      by blast
  qed
  then show ?thesis
    using AddService_HasService [of "AddService empty_MsgVersion 5" 5] b5 b4 five four
    by simp
qed


theorem discardInput_requests_witness:
  "reads (discardInput \<lparr>input = [1, 2, 3], reads = [], allocs = []\<rparr> 20485)
     = [10240, 10240, 5]
   \<and> input (discardInput \<lparr>input = [1, 2, 3], reads = [], allocs = []\<rparr> 20485) = []
   \<and> allocs (discardInput \<lparr>input = [1, 2, 3], reads = [], allocs = []\<rparr> 20485)
     = [10240, 5]"
proof -
  have r: "discard_requests (unat (20485 :: uint32)) = [10240, 10240, 5]"
    by code_simp
  have b: "discard_buffers (unat (20485 :: uint32)) = [10240, 5]"
    by code_simp
  have d: "drop (unat (20485 :: uint32)) [1, 2, 3 :: byte] = []"
    by simp
  show ?thesis
    using discardInput_requests [of "\<lparr>input = [1, 2, 3], reads = [], allocs = []\<rparr>" 20485]
    by (simp only: r b d rstate.simps append_Nil)
qed

section \<open>Byte order: reading back what was written\<close>

lemma length_le_bytes [simp]: "length (le_bytes n w) = n"
  by (induction n arbitrary: w) simp_all

lemma le_word_le_bytes: "le_word (le_bytes n w) = take_bit (8 * n) w"
proof (induction n arbitrary: w)
  case 0
  then show ?case by simp
next
  case (Suc n)
  have "(ucast (ucast w :: byte) :: 'a word) OR push_bit 8 (take_bit (8 * n) (drop_bit 8 w))
        = take_bit (8 * Suc n) w"
    by (rule bit_word_eqI) (auto simp: bit_simps)
  with Suc show ?case
    by simp
qed

lemma le_word_le_bytes_full:
  "LENGTH('a) \<le> 8 * n \<Longrightarrow> le_word (le_bytes n (w :: 'a::len word)) = w"
  by (simp add: le_word_le_bytes take_bit_word_eq_self)

lemma length_be_bytes [simp]: "length (be_bytes n w) = n"
  by (simp add: be_bytes_def)

lemma be_word_be_bytes_full:
  "LENGTH('a) \<le> 8 * n \<Longrightarrow> be_word (be_bytes n (w :: 'a::len word)) = w"
  by (simp add: be_word_def be_bytes_def le_word_le_bytes_full)

lemma string_of_bytes_of [simp]: "string_of (bytes_of s) = s"
proof -
  have "char_of (unat (of_char c :: byte)) = c" for c
  proof -
    have "(of_char c :: byte) = of_nat (of_char c)"
      by (simp only: of_nat_of_char)
    moreover have "(of_char c :: nat) < 256"
      by (rule nat_of_char_less_256)
    ultimately have "unat (of_char c :: byte) = of_char c"
      by (simp add: unat_of_nat del: of_nat_of_char)
    then show ?thesis
      by simp
  qed
  then show ?thesis
    by (simp add: string_of_def bytes_of_def comp_def)
qed

lemma length_bytes_of [simp]: "length (bytes_of s) = length s"
  by (simp add: bytes_of_def)

lemma length_string_of [simp]: "length (string_of bs) = length bs"
  by (simp add: string_of_def)

section \<open>Reads that find their bytes\<close>

lemma io_ReadFull_0 [simp]: "io_ReadFull s 0 = (s, Inr [])"
  by (simp add: io_ReadFull_def)

lemma io_ReadFull_append:
  "input s = bs @ rest \<Longrightarrow> length bs = n \<Longrightarrow> 0 < n \<Longrightarrow>
   io_ReadFull s n = (s\<lparr>input := rest, reads := reads s @ [n]\<rparr>, Inr bs)"
  by (simp add: io_ReadFull_def)

lemma io_ReadFull_enough:
  "n \<le> length (input s) \<Longrightarrow> 0 < n \<Longrightarrow>
   io_ReadFull s n =
     (s\<lparr>input := drop n (input s), reads := reads s @ [n]\<rparr>, Inr (take n (input s)))"
  by (simp add: io_ReadFull_def)

lemma readElement_append:
  fixes w :: "'a::len word"
  assumes "input s = le_bytes (LENGTH('a) div 8) w @ rest" and "8 dvd LENGTH('a)"
  shows "readElement s = (s\<lparr>input := rest, reads := reads s @ [LENGTH('a) div 8]\<rparr>, Inr w)"
proof -
  have full: "LENGTH('a) \<le> 8 * (LENGTH('a) div 8)"
    using assms(2) by simp
  have pos: "0 < LENGTH('a) div 8"
  proof -
    from assms(2) obtain k where k: "LENGTH('a) = 8 * k" ..
    moreover have "0 < LENGTH('a)"
      by simp
    ultimately have "0 < k"
      by (metis mult_0_right neq0_conv)
    with k show ?thesis
      by simp
  qed
  show ?thesis
    using io_ReadFull_append [OF assms(1) _ pos]
    by (simp add: readElement_def le_word_le_bytes_full [OF full])
qed

section \<open>Writes that fit\<close>

lemma Write_unbounded:
  "room w = None \<Longrightarrow> Write w p = (w\<lparr>written := written w @ p\<rparr>, None)"
  by (simp add: Write_def)

lemma Write_ok:
  "Write w p = (w', None) \<Longrightarrow> written w' = written w @ p"
  by (auto simp: Write_def split: option.splits if_splits)

section \<open>The header\<close>

lemma readMessageHeader_enough:
  assumes "24 \<le> length (input r)"
  shows "readMessageHeader r =
     (r\<lparr>input := drop 24 (input r), reads := reads r @ [4, 12, 4, 4]\<rparr>,
      Inr \<lparr>magic = le_word (take 4 (input r)),
           command = string_of (TrimRight (take 12 (drop 4 (input r))) [0]),
           length' = le_word (take 4 (drop 16 (input r))),
           checksum = take 4 (drop 20 (input r))\<rparr>)"
proof -
  from assms have "4 \<le> length (input r)" "12 \<le> length (input r) - 4"
    "4 \<le> length (input r) - 16" "4 \<le> length (input r) - 20"
    by simp_all
  then show ?thesis
    by (simp add: readMessageHeader_def readElement_def readArray_def commandSize_def
          io_ReadFull_def add.commute)
qed

lemma readMessageHeader_short:
  assumes "length (input r) < 24"
  shows "\<exists>r' e. readMessageHeader r = (r', Inl e)"
  using assms
  by (simp add: readMessageHeader_def readElement_def readArray_def commandSize_def
        io_ReadFull_def)

lemma readMessageHeader_Inr:
  assumes "readMessageHeader r = (r', Inr hdr)"
  shows "24 \<le> length (input r)"
    and "r' = r\<lparr>input := drop 24 (input r), reads := reads r @ [4, 12, 4, 4]\<rparr>"
    and "hdr = \<lparr>magic = le_word (take 4 (input r)),
           command = string_of (TrimRight (take 12 (drop 4 (input r))) [0]),
           length' = le_word (take 4 (drop 16 (input r))),
           checksum = take 4 (drop 20 (input r))\<rparr>"
proof -
  show len: "24 \<le> length (input r)"
  proof (rule ccontr)
    assume "\<not> 24 \<le> length (input r)"
    then have "length (input r) < 24"
      by simp
    from readMessageHeader_short [OF this] assms show False
      by auto
  qed
  from readMessageHeader_enough [OF len] assms
  show "r' = r\<lparr>input := drop 24 (input r), reads := reads r @ [4, 12, 4, 4]\<rparr>"
    and "hdr = \<lparr>magic = le_word (take 4 (input r)),
           command = string_of (TrimRight (take 12 (drop 4 (input r))) [0]),
           length' = le_word (take 4 (drop 16 (input r))),
           checksum = take 4 (drop 20 (input r))\<rparr>"
    by simp_all
qed

lemma maxMessagePayload_word: "(of_nat maxMessagePayload :: uint32) = 33554432"
  by (simp add: maxMessagePayload_def)

lemma over_maxMessagePayload:
  "(33554432 < (n :: uint32)) = (33554432 < unat n)"
  by (simp add: word_less_nat_alt)

text \<open>
  C1. When the header that \<open>ReadMessage\<close> decodes declares more than 33554432 bytes, the
  call returns the error at once: the stream has been asked for the four header fields
  (4, 12, 4 and 4 bytes) and nothing else, the bytes after the 24 of the header are all
  still in the stream, and no buffer has been made.
\<close>

theorem ReadMessage_oversized_header:
  assumes "readMessageHeader r = (r', Inr hdr)"
    and "33554432 < unat (length' hdr)"
  shows "ReadMessage ops sha r pver btcnet =
           (r', Inl (MessageError ''ReadMessage'' (HeaderTooLarge (length' hdr) 33554432)))
         \<and> reads r' = reads r @ [4, 12, 4, 4]
         \<and> input r' = drop 24 (input r)
         \<and> allocs r' = allocs r"
proof -
  have "ReadMessage ops sha r pver btcnet =
           (r', Inl (MessageError ''ReadMessage'' (HeaderTooLarge (length' hdr) 33554432)))"
    using assms
    by (simp add: ReadMessage_def over_maxMessagePayload messageError_def maxMessagePayload_def)
  moreover note readMessageHeader_Inr(2) [OF assms(1)]
  ultimately show ?thesis
    by simp
qed

theorem ReadMessage_oversized_header_witness:
  "ReadMessage sample_methods sample_digest
     \<lparr>input = [1, 2, 3, 4] @ bytes_of ''version'' @ [0, 0, 0, 0, 0] @ [1, 0, 0, 2]
                @ [5, 6, 7, 8] @ [9, 9], reads = [], allocs = []\<rparr> 70001 0x04030201
   = (\<lparr>input = [9, 9], reads = [4, 12, 4, 4], allocs = []\<rparr>,
      Inl (MessageError ''ReadMessage'' (HeaderTooLarge 33554433 33554432)))"
proof -
  let ?r = "\<lparr>input = [1, 2, 3, 4] @ bytes_of ''version'' @ [0, 0, 0, 0, 0] @ [1, 0, 0, 2]
                @ [5, 6, 7, 8] @ [9, 9], reads = [], allocs = []\<rparr>"
  let ?hdr = "\<lparr>magic = 0x04030201, command = ''version'', length' = 33554433,
               checksum = [5, 6, 7, 8]\<rparr>"
  have h: "readMessageHeader ?r = (\<lparr>input = [9, 9], reads = [4, 12, 4, 4], allocs = []\<rparr>, Inr ?hdr)"
    by code_simp
  have l: "33554432 < unat (length' ?hdr)"
    by simp
  show ?thesis
    using ReadMessage_oversized_header [OF h l, where ops = sample_methods
        and sha = sample_digest and pver = 70001 and btcnet = "0x04030201"]
    by simp
qed

section \<open>Rejections that drain the declared length\<close>

lemma under_maxMessagePayload:
  "(\<not> 33554432 < (n :: uint32)) = (unat n \<le> 33554432)"
  by (simp add: word_less_nat_alt not_less)

lemma ReadMessage_after_header:
  assumes "readMessageHeader r = (r', Inr hdr)" and "unat (length' hdr) \<le> 33554432"
  shows "ReadMessage ops sha r pver btcnet =
     (if magic hdr \<noteq> btcnet
      then (discardInput r' (length' hdr),
            Inl (MessageError ''ReadMessage'' (OtherNetwork (magic hdr))))
      else if \<not> utf8_ValidString (command hdr)
      then (discardInput r' (length' hdr),
            Inl (MessageError ''ReadMessage'' (InvalidCommand (bytes_of (command hdr)))))
      else
        (case makeEmptyMessage ops (command hdr) of
           Inl err \<Rightarrow>
             (discardInput r' (length' hdr),
              Inl (MessageError ''ReadMessage'' (Error_text err)))
         | Inr msg \<Rightarrow>
             if Message_MaxPayloadLength ops msg pver < length' hdr
             then (discardInput r' (length' hdr),
                   Inl (MessageError ''ReadMessage''
                     (PayloadExceedsType (length' hdr) (command hdr)
                        (Message_MaxPayloadLength ops msg pver))))
             else
               (case io_ReadFull (make_bytes r' (unat (length' hdr))) (unat (length' hdr)) of
                  (r, Inl err) \<Rightarrow> (r, Inl err)
                | (r, Inr payload) \<Rightarrow>
                    if take 4 (digest_bytes (sha payload)) \<noteq> checksum hdr
                    then (r, Inl (MessageError ''ReadMessage''
                            (ChecksumFailed (checksum hdr) (take 4 (digest_bytes (sha payload))))))
                    else
                      (case Message_BtcDecode ops msg (NewBuffer payload) pver of
                         (msg, pr, Some err) \<Rightarrow> (r, Inl err)
                       | (msg, pr, None) \<Rightarrow> (r, Inr (msg, payload))))))"
proof -
  from assms(2) have "\<not> 33554432 < length' hdr"
    by (simp add: under_maxMessagePayload)
  with assms(1) show ?thesis
    by (simp add: ReadMessage_def maxMessagePayload_word messageError_def Let_def
          split: sum.splits prod.splits option.splits)
qed

text \<open>
  C2. When the header passes the global length check and the message is then rejected
  for its network, for a command that is not valid UTF-8, for a command that
  \<open>makeEmptyMessage\<close> does not know, or for a declared length above the
  \<open>MaxPayloadLength\<close> of the constructed message, the reader that \<open>ReadMessage\<close> returns is
  the one \<open>discardInput\<close> leaves when called with the declared length on the reader
  after the header; the error is the \<open>MessageError\<close> of the first check that fails; the
  requests made are those of the discard utility, whose sizes add up to the declared
  length, and that is at most 33554432.
\<close>

theorem ReadMessage_drains_declared_length:
  assumes "readMessageHeader r = (r', Inr hdr)"
    and "unat (length' hdr) \<le> 33554432"
    and "magic hdr \<noteq> btcnet \<or> \<not> utf8_ValidString (command hdr)
         \<or> (case makeEmptyMessage ops (command hdr) of
               Inl err \<Rightarrow> True
             | Inr msg \<Rightarrow> Message_MaxPayloadLength ops msg pver < length' hdr)"
  shows "fst (ReadMessage ops sha r pver btcnet) = discardInput r' (length' hdr)
     \<and> snd (ReadMessage ops sha r pver btcnet) =
         Inl (MessageError ''ReadMessage''
           (if magic hdr \<noteq> btcnet then OtherNetwork (magic hdr)
            else if \<not> utf8_ValidString (command hdr)
              then InvalidCommand (bytes_of (command hdr))
            else (case makeEmptyMessage ops (command hdr) of
                    Inl err \<Rightarrow> Error_text err
                  | Inr msg \<Rightarrow> PayloadExceedsType (length' hdr) (command hdr)
                                (Message_MaxPayloadLength ops msg pver))))
     \<and> reads (discardInput r' (length' hdr))
         = reads r' @ discard_requests (unat (length' hdr))
     \<and> sum_list (discard_requests (unat (length' hdr))) = unat (length' hdr)
     \<and> sum_list (discard_requests (unat (length' hdr))) \<le> 33554432
     \<and> input (discardInput r' (length' hdr)) = drop (unat (length' hdr)) (input r')
     \<and> allocs (discardInput r' (length' hdr))
         = allocs r' @ discard_buffers (unat (length' hdr))"
proof -
  note eq = ReadMessage_after_header [OF assms(1,2), of ops sha pver btcnet]
  have "fst (ReadMessage ops sha r pver btcnet) = discardInput r' (length' hdr)"
    using assms(3) by (auto simp: eq split: sum.splits)
  moreover have "snd (ReadMessage ops sha r pver btcnet) =
         Inl (MessageError ''ReadMessage''
           (if magic hdr \<noteq> btcnet then OtherNetwork (magic hdr)
            else if \<not> utf8_ValidString (command hdr)
              then InvalidCommand (bytes_of (command hdr))
            else (case makeEmptyMessage ops (command hdr) of
                    Inl err \<Rightarrow> Error_text err
                  | Inr msg \<Rightarrow> PayloadExceedsType (length' hdr) (command hdr)
                                (Message_MaxPayloadLength ops msg pver))))"
    using assms(3) by (auto simp: eq split: sum.splits)
  ultimately show ?thesis
    using assms(2) by (simp add: discardInput_eq sum_list_discard_requests)
qed

theorem ReadMessage_drains_declared_length_witness:
  "fst (ReadMessage sample_methods sample_digest
     \<lparr>input = [1, 2, 3, 4] @ bytes_of ''version'' @ [0, 0, 0, 0, 0] @ [3, 0, 0, 0]
                @ [5, 6, 7, 8] @ [7, 8, 9] @ [1], reads = [], allocs = []\<rparr> 70001 0xd9b4bef9)
   = \<lparr>input = [1], reads = [4, 12, 4, 4, 3], allocs = [10240, 3]\<rparr>
   \<and> snd (ReadMessage sample_methods sample_digest
     \<lparr>input = [1, 2, 3, 4] @ bytes_of ''version'' @ [0, 0, 0, 0, 0] @ [3, 0, 0, 0]
                @ [5, 6, 7, 8] @ [7, 8, 9] @ [1], reads = [], allocs = []\<rparr> 70001 0xd9b4bef9)
   = Inl (MessageError ''ReadMessage'' (OtherNetwork 0x04030201))"
proof -
  let ?r = "\<lparr>input = [1, 2, 3, 4] @ bytes_of ''version'' @ [0, 0, 0, 0, 0] @ [3, 0, 0, 0]
                @ [5, 6, 7, 8] @ [7, 8, 9] @ [1], reads = [], allocs = []\<rparr>"
  let ?r' = "\<lparr>input = [7, 8, 9, 1 :: byte], reads = [4, 12, 4, 4], allocs = []\<rparr>"
  let ?hdr = "\<lparr>magic = 0x04030201, command = ''version'', length' = 3,
               checksum = [5, 6, 7, 8]\<rparr>"
  have h: "readMessageHeader ?r = (?r', Inr ?hdr)"
    by code_simp
  have l: "unat (length' ?hdr) \<le> 33554432"
    by simp
  have n: "magic ?hdr \<noteq> 0xd9b4bef9 \<or> \<not> utf8_ValidString (command ?hdr)
         \<or> (case makeEmptyMessage sample_methods (command ?hdr) of
               Inl err \<Rightarrow> True
             | Inr msg \<Rightarrow> Message_MaxPayloadLength sample_methods msg 70001 < length' ?hdr)"
    by simp
  have d: "discardInput ?r' 3 = \<lparr>input = [1], reads = [4, 12, 4, 4, 3], allocs = [10240, 3]\<rparr>"
    by code_simp
  show ?thesis
    using ReadMessage_drains_declared_length [OF h l n, where sha = sample_digest]
    by (simp add: d)
qed

section \<open>The registry\<close>

lemmas cmd_defs =
  cmdVersion_def cmdVerAck_def cmdGetAddr_def cmdAddr_def cmdGetBlocks_def cmdInv_def
  cmdGetData_def cmdNotFound_def cmdBlock_def cmdTx_def cmdGetHeaders_def cmdHeaders_def
  cmdPing_def cmdPong_def cmdAlert_def cmdMemPool_def

lemma makeEmptyMessage_unknown:
  "cmd \<notin> set known_commands \<Longrightarrow>
   makeEmptyMessage ops cmd = Inl (Errorf (UnhandledCommand cmd))"
  by (simp add: makeEmptyMessage_def known_commands_def cmd_defs)

lemma makeEmptyMessage_known:
  "cmd \<in> set known_commands \<Longrightarrow> \<exists>msg. makeEmptyMessage ops cmd = Inr msg"
  by (auto simp: makeEmptyMessage_def known_commands_def cmd_defs)

lemma readMessageHeader_append:
  assumes "input r = hb @ rest" and "length hb = 24"
  shows "readMessageHeader r =
     (r\<lparr>input := rest, reads := reads r @ [4, 12, 4, 4]\<rparr>,
      Inr \<lparr>magic = le_word (take 4 hb),
           command = string_of (TrimRight (take 12 (drop 4 hb)) [0]),
           length' = le_word (take 4 (drop 16 hb)),
           checksum = drop 20 hb\<rparr>)"
proof -
  have "24 \<le> length (input r)"
    using assms by simp
  from readMessageHeader_enough [OF this] show ?thesis
    using assms by simp
qed

text \<open>
  C8. For each of the sixteen known commands \<open>makeEmptyMessage\<close> returns the empty
  message of the matching type (for \<open>version\<close> the \<open>MsgVersion\<close> with every field zero,
  for the others the empty value of the type named by the command); for every other
  string it returns the error and no message; and when the header of a stream passes the
  checks before the registry and names such a string, \<open>ReadMessage\<close> returns the
  \<open>MessageError\<close> of that error after draining the declared length: the reader it
  returns is the one \<open>discardInput\<close> leaves, the stream has lost the 24 bytes of the header
  and then the declared number of bytes (or all it had), and after the four header fields
  it has been asked for the full chunks of 10240 bytes and the remainder, which add up to
  the declared length.
\<close>

theorem makeEmptyMessage_registry:
  "makeEmptyMessage ops ''version'' = Inr (Version empty_MsgVersion)
   \<and> makeEmptyMessage ops ''verack'' = Inr (Other MsgVerAck (m_empty ops MsgVerAck))
   \<and> makeEmptyMessage ops ''getaddr'' = Inr (Other MsgGetAddr (m_empty ops MsgGetAddr))
   \<and> makeEmptyMessage ops ''addr'' = Inr (Other MsgAddr (m_empty ops MsgAddr))
   \<and> makeEmptyMessage ops ''getblocks'' = Inr (Other MsgGetBlocks (m_empty ops MsgGetBlocks))
   \<and> makeEmptyMessage ops ''inv'' = Inr (Other MsgInv (m_empty ops MsgInv))
   \<and> makeEmptyMessage ops ''getdata'' = Inr (Other MsgGetData (m_empty ops MsgGetData))
   \<and> makeEmptyMessage ops ''notfound'' = Inr (Other MsgNotFound (m_empty ops MsgNotFound))
   \<and> makeEmptyMessage ops ''block'' = Inr (Other MsgBlock (m_empty ops MsgBlock))
   \<and> makeEmptyMessage ops ''tx'' = Inr (Other MsgTx (m_empty ops MsgTx))
   \<and> makeEmptyMessage ops ''getheaders'' = Inr (Other MsgGetHeaders (m_empty ops MsgGetHeaders))
   \<and> makeEmptyMessage ops ''headers'' = Inr (Other MsgHeaders (m_empty ops MsgHeaders))
   \<and> makeEmptyMessage ops ''ping'' = Inr (Other MsgPing (m_empty ops MsgPing))
   \<and> makeEmptyMessage ops ''pong'' = Inr (Other MsgPong (m_empty ops MsgPong))
   \<and> makeEmptyMessage ops ''alert'' = Inr (Other MsgAlert (m_empty ops MsgAlert))
   \<and> makeEmptyMessage ops ''mempool'' = Inr (Other MsgMemPool (m_empty ops MsgMemPool))
   \<and> (cmd \<notin> set known_commands \<longrightarrow>
        makeEmptyMessage ops cmd = Inl (Errorf (UnhandledCommand cmd)))
   \<and> (readMessageHeader r = (r', Inr hdr) \<and> unat (length' hdr) \<le> 33554432
        \<and> magic hdr = btcnet \<and> utf8_ValidString (command hdr)
        \<and> command hdr \<notin> set known_commands \<longrightarrow>
        ReadMessage ops sha r pver btcnet =
          (discardInput r' (length' hdr),
           Inl (MessageError ''ReadMessage'' (UnhandledCommand (command hdr))))
        \<and> input (fst (ReadMessage ops sha r pver btcnet))
            = drop (unat (length' hdr)) (drop 24 (input r))
        \<and> reads (fst (ReadMessage ops sha r pver btcnet))
            = reads r @ [4, 12, 4, 4]
                @ replicate (unat (length' hdr) div 10240) 10240
                @ (if unat (length' hdr) mod 10240 = 0 then []
                   else [unat (length' hdr) mod 10240])
        \<and> sum_list (replicate (unat (length' hdr) div 10240) 10240
                @ (if unat (length' hdr) mod 10240 = 0 then []
                   else [unat (length' hdr) mod 10240]))
            = unat (length' hdr)
        \<and> allocs (fst (ReadMessage ops sha r pver btcnet))
            = allocs r @ discard_buffers (unat (length' hdr)))"
proof -
  have known: "makeEmptyMessage ops ''version'' = Inr (Version empty_MsgVersion)
   \<and> makeEmptyMessage ops ''verack'' = Inr (Other MsgVerAck (m_empty ops MsgVerAck))
   \<and> makeEmptyMessage ops ''getaddr'' = Inr (Other MsgGetAddr (m_empty ops MsgGetAddr))
   \<and> makeEmptyMessage ops ''addr'' = Inr (Other MsgAddr (m_empty ops MsgAddr))
   \<and> makeEmptyMessage ops ''getblocks'' = Inr (Other MsgGetBlocks (m_empty ops MsgGetBlocks))
   \<and> makeEmptyMessage ops ''inv'' = Inr (Other MsgInv (m_empty ops MsgInv))
   \<and> makeEmptyMessage ops ''getdata'' = Inr (Other MsgGetData (m_empty ops MsgGetData))
   \<and> makeEmptyMessage ops ''notfound'' = Inr (Other MsgNotFound (m_empty ops MsgNotFound))
   \<and> makeEmptyMessage ops ''block'' = Inr (Other MsgBlock (m_empty ops MsgBlock))
   \<and> makeEmptyMessage ops ''tx'' = Inr (Other MsgTx (m_empty ops MsgTx))
   \<and> makeEmptyMessage ops ''getheaders'' = Inr (Other MsgGetHeaders (m_empty ops MsgGetHeaders))
   \<and> makeEmptyMessage ops ''headers'' = Inr (Other MsgHeaders (m_empty ops MsgHeaders))
   \<and> makeEmptyMessage ops ''ping'' = Inr (Other MsgPing (m_empty ops MsgPing))
   \<and> makeEmptyMessage ops ''pong'' = Inr (Other MsgPong (m_empty ops MsgPong))
   \<and> makeEmptyMessage ops ''alert'' = Inr (Other MsgAlert (m_empty ops MsgAlert))
   \<and> makeEmptyMessage ops ''mempool'' = Inr (Other MsgMemPool (m_empty ops MsgMemPool))"
    by (simp add: makeEmptyMessage_def cmd_defs)
  have unknown: "cmd \<notin> set known_commands \<longrightarrow>
        makeEmptyMessage ops cmd = Inl (Errorf (UnhandledCommand cmd))"
    by (simp add: makeEmptyMessage_unknown)
  have reject: "readMessageHeader r = (r', Inr hdr) \<and> unat (length' hdr) \<le> 33554432
        \<and> magic hdr = btcnet \<and> utf8_ValidString (command hdr)
        \<and> command hdr \<notin> set known_commands \<longrightarrow>
        ReadMessage ops sha r pver btcnet =
          (discardInput r' (length' hdr),
           Inl (MessageError ''ReadMessage'' (UnhandledCommand (command hdr))))
        \<and> input (fst (ReadMessage ops sha r pver btcnet))
            = drop (unat (length' hdr)) (drop 24 (input r))
        \<and> reads (fst (ReadMessage ops sha r pver btcnet))
            = reads r @ [4, 12, 4, 4]
                @ replicate (unat (length' hdr) div 10240) 10240
                @ (if unat (length' hdr) mod 10240 = 0 then []
                   else [unat (length' hdr) mod 10240])
        \<and> sum_list (replicate (unat (length' hdr) div 10240) 10240
                @ (if unat (length' hdr) mod 10240 = 0 then []
                   else [unat (length' hdr) mod 10240]))
            = unat (length' hdr)
        \<and> allocs (fst (ReadMessage ops sha r pver btcnet))
            = allocs r @ discard_buffers (unat (length' hdr))"
  proof (intro impI, elim conjE)
    assume h: "readMessageHeader r = (r', Inr hdr)" and l: "unat (length' hdr) \<le> 33554432"
      and m: "magic hdr = btcnet" and u: "utf8_ValidString (command hdr)"
      and k: "command hdr \<notin> set known_commands"
    have eq: "ReadMessage ops sha r pver btcnet =
          (discardInput r' (length' hdr),
           Inl (MessageError ''ReadMessage'' (UnhandledCommand (command hdr))))"
      by (simp add: ReadMessage_after_header [OF h l] m u makeEmptyMessage_unknown [OF k])
    have r': "r' = r\<lparr>input := drop 24 (input r), reads := reads r @ [4, 12, 4, 4]\<rparr>"
      by (rule readMessageHeader_Inr(2) [OF h])
    have i: "input (discardInput r' (length' hdr)) = drop (unat (length' hdr)) (drop 24 (input r))"
      by (simp add: discardInput_eq r')
    have rd: "reads (discardInput r' (length' hdr))
            = reads r @ [4, 12, 4, 4]
                @ replicate (unat (length' hdr) div 10240) 10240
                @ (if unat (length' hdr) mod 10240 = 0 then []
                   else [unat (length' hdr) mod 10240])"
      by (simp add: discardInput_eq r' discard_requests_def)
    have al: "allocs (discardInput r' (length' hdr)) = allocs r @ discard_buffers (unat (length' hdr))"
      by (simp add: discardInput_eq r')
    have sm: "sum_list (replicate (unat (length' hdr) div 10240) 10240
                @ (if unat (length' hdr) mod 10240 = 0 then []
                   else [unat (length' hdr) mod 10240]))
            = unat (length' hdr)"
      using sum_list_discard_requests [of "unat (length' hdr)"]
      by (simp only: discard_requests_def)
    show "ReadMessage ops sha r pver btcnet =
          (discardInput r' (length' hdr),
           Inl (MessageError ''ReadMessage'' (UnhandledCommand (command hdr))))
        \<and> input (fst (ReadMessage ops sha r pver btcnet))
            = drop (unat (length' hdr)) (drop 24 (input r))
        \<and> reads (fst (ReadMessage ops sha r pver btcnet))
            = reads r @ [4, 12, 4, 4]
                @ replicate (unat (length' hdr) div 10240) 10240
                @ (if unat (length' hdr) mod 10240 = 0 then []
                   else [unat (length' hdr) mod 10240])
        \<and> sum_list (replicate (unat (length' hdr) div 10240) 10240
                @ (if unat (length' hdr) mod 10240 = 0 then []
                   else [unat (length' hdr) mod 10240]))
            = unat (length' hdr)
        \<and> allocs (fst (ReadMessage ops sha r pver btcnet))
            = allocs r @ discard_buffers (unat (length' hdr))"
      using eq i rd al sm by (simp only: fst_conv)
  qed
  from known unknown reject show ?thesis
    by blast
qed


theorem makeEmptyMessage_registry_witness:
  "makeEmptyMessage sample_methods ''bogus'' = Inl (Errorf (UnhandledCommand ''bogus''))
   \<and> snd (ReadMessage sample_methods sample_digest
     \<lparr>input = ([1, 2, 3, 4] @ bytes_of ''bogus'' @ [0, 0, 0, 0, 0, 0, 0] @ [5, 80, 0, 0]
                @ [5, 6, 7, 8]) @ replicate 20485 7 @ [1], reads = [], allocs = []\<rparr>
       70001 0x04030201)
     = Inl (MessageError ''ReadMessage'' (UnhandledCommand ''bogus''))
   \<and> input (fst (ReadMessage sample_methods sample_digest
     \<lparr>input = ([1, 2, 3, 4] @ bytes_of ''bogus'' @ [0, 0, 0, 0, 0, 0, 0] @ [5, 80, 0, 0]
                @ [5, 6, 7, 8]) @ replicate 20485 7 @ [1], reads = [], allocs = []\<rparr>
       70001 0x04030201)) = [1]
   \<and> reads (fst (ReadMessage sample_methods sample_digest
     \<lparr>input = ([1, 2, 3, 4] @ bytes_of ''bogus'' @ [0, 0, 0, 0, 0, 0, 0] @ [5, 80, 0, 0]
                @ [5, 6, 7, 8]) @ replicate 20485 7 @ [1], reads = [], allocs = []\<rparr>
       70001 0x04030201)) = [4, 12, 4, 4, 10240, 10240, 5]
   \<and> allocs (fst (ReadMessage sample_methods sample_digest
     \<lparr>input = ([1, 2, 3, 4] @ bytes_of ''bogus'' @ [0, 0, 0, 0, 0, 0, 0] @ [5, 80, 0, 0]
                @ [5, 6, 7, 8]) @ replicate 20485 7 @ [1], reads = [], allocs = []\<rparr>
       70001 0x04030201)) = [10240, 5]"
proof -
  let ?hb = "[1, 2, 3, 4] @ bytes_of ''bogus'' @ [0, 0, 0, 0, 0, 0, 0] @ [5, 80, 0, 0]
                @ [5, 6, 7, 8 :: byte]"
  let ?rest = "replicate 20485 (7 :: byte) @ [1]"
  let ?r = "\<lparr>input = ?hb @ ?rest, reads = [], allocs = []\<rparr>"
  let ?r' = "\<lparr>input = ?rest, reads = [4, 12, 4, 4], allocs = []\<rparr>"
  let ?hdr = "\<lparr>magic = 0x04030201, command = ''bogus'', length' = 20485,
               checksum = [5, 6, 7, 8]\<rparr>"
  have len: "length ?hb = 24"
    by simp
  have parsed: "\<lparr>magic = le_word (take 4 ?hb),
           command = string_of (TrimRight (take 12 (drop 4 ?hb)) [0]),
           length' = le_word (take 4 (drop 16 ?hb)),
           checksum = drop 20 ?hb\<rparr> = ?hdr"
    by code_simp
  have h: "readMessageHeader ?r = (?r', Inr ?hdr)"
    using readMessageHeader_append [of ?r ?hb ?rest, OF _ len]
    by (simp only: parsed rstate.simps rstate.update_convs append_Nil)
  have k: "''bogus'' \<notin> set known_commands"
    by (simp add: known_commands_def)
  have u: "utf8_ValidString ''bogus''"
    by code_simp
  have n: "unat (20485 :: uint32) = 20485"
    by simp
  have dv: "(20485 :: nat) div 10240 = 2" and md: "(20485 :: nat) mod 10240 = 5"
    by simp_all
  have b: "discard_buffers 20485 = [10240, 5]"
    by (simp add: discard_buffers_def)
  have dr: "drop 20485 (drop 24 (?hb @ ?rest)) = [1 :: byte]"
    by simp
  have rp: "replicate 2 (10240 :: nat) = [10240, 10240]"
    by (simp add: numeral_2_eq_2)
  let ?R = "ReadMessage sample_methods sample_digest ?r 70001 0x04030201"
  have l: "unat (length' ?hdr) \<le> 33554432"
    by simp
  have m: "magic ?hdr = 0x04030201" and c: "command ?hdr = ''bogus''"
    and ln: "length' ?hdr = 20485"
    by simp_all
  note inst = makeEmptyMessage_registry [where cmd = "''bogus''" and ops = sample_methods
        and r = ?r and r' = ?r' and hdr = ?hdr and btcnet = "0x04030201" and sha = sample_digest
        and pver = 70001]
  from inst k have e1: "makeEmptyMessage sample_methods ''bogus''
      = Inl (Errorf (UnhandledCommand ''bogus''))"
    by blast
  have pre: "readMessageHeader ?r = (?r', Inr ?hdr) \<and> unat (length' ?hdr) \<le> 33554432
        \<and> magic ?hdr = 0x04030201 \<and> utf8_ValidString (command ?hdr)
        \<and> command ?hdr \<notin> set known_commands"
    using h l k u by (simp only: m c simp_thms)
  from inst pre have post:
       "?R = (discardInput ?r' (length' ?hdr),
           Inl (MessageError ''ReadMessage'' (UnhandledCommand (command ?hdr))))
        \<and> input (fst ?R) = drop (unat (length' ?hdr)) (drop 24 (input ?r))
        \<and> reads (fst ?R)
            = reads ?r @ [4, 12, 4, 4]
                @ replicate (unat (length' ?hdr) div 10240) 10240
                @ (if unat (length' ?hdr) mod 10240 = 0 then []
                   else [unat (length' ?hdr) mod 10240])
        \<and> sum_list (replicate (unat (length' ?hdr) div 10240) 10240
                @ (if unat (length' ?hdr) mod 10240 = 0 then []
                   else [unat (length' ?hdr) mod 10240]))
            = unat (length' ?hdr)
        \<and> allocs (fst ?R) = allocs ?r @ discard_buffers (unat (length' ?hdr))"
    by blast
  from post have e2: "snd ?R = Inl (MessageError ''ReadMessage'' (UnhandledCommand ''bogus''))"
    by (simp only: c snd_conv)
  from post have "input (fst ?R) = drop (unat (length' ?hdr)) (drop 24 (input ?r))"
    by blast
  then have e3: "input (fst ?R) = [1]"
    by (simp only: ln n rstate.simps dr)
  from post have "reads (fst ?R)
            = reads ?r @ [4, 12, 4, 4]
                @ replicate (unat (length' ?hdr) div 10240) 10240
                @ (if unat (length' ?hdr) mod 10240 = 0 then []
                   else [unat (length' ?hdr) mod 10240])"
    by blast
  then have e4: "reads (fst ?R) = [4, 12, 4, 4, 10240, 10240, 5]"
    by (simp only: ln n dv md rp rstate.simps) simp
  from post have "allocs (fst ?R) = allocs ?r @ discard_buffers (unat (length' ?hdr))"
    by blast
  then have e5: "allocs (fst ?R) = [10240, 5]"
    by (simp only: ln n b rstate.simps append_Nil)
  from e1 e2 e3 e4 e5 show ?thesis
    by (intro conjI)
qed

section \<open>The checksum\<close>





section \<open>Evaluating the leading bytes of a digest\<close>




lemma le_bytes_numeral: "le_bytes (numeral k) w = ucast w # le_bytes (pred_numeral k) (drop_bit 8 w)"
  by (simp add: numeral_eq_Suc)

lemma le_bytes_1: "le_bytes 1 w = [ucast w]"
  by (simp add: numeral_eq_Suc)




section \<open>Decoding from a stream that has the bytes\<close>

lemma readElement_enough:
  fixes r :: rstate
  assumes "LENGTH('a::len) div 8 \<le> length (input r)" and "8 \<le> LENGTH('a)"
  shows "(readElement r :: rstate \<times> (error + 'a word)) =
     (r\<lparr>input := drop (LENGTH('a) div 8) (input r),
        reads := reads r @ [LENGTH('a) div 8]\<rparr>,
      Inr (le_word (take (LENGTH('a) div 8) (input r))))"
proof -
  have "0 < LENGTH('a) div 8"
    using assms(2) by (simp add: div_greater_zero_iff)
  with assms(1) show ?thesis
    by (simp add: readElement_def io_ReadFull_def)
qed

lemma readElement32:
  "4 \<le> length (input r) \<Longrightarrow>
   (readElement r :: rstate \<times> (error + 32 word)) =
     (r\<lparr>input := drop 4 (input r), reads := reads r @ [4]\<rparr>, Inr (le_word (take 4 (input r))))"
  using readElement_enough [where 'a = 32, of r] by simp

lemma readElement64:
  "8 \<le> length (input r) \<Longrightarrow>
   (readElement r :: rstate \<times> (error + 64 word)) =
     (r\<lparr>input := drop 8 (input r), reads := reads r @ [8]\<rparr>, Inr (le_word (take 8 (input r))))"
  using readElement_enough [where 'a = 64, of r] by simp

lemma readElement8:
  "1 \<le> length (input r) \<Longrightarrow>
   (readElement r :: rstate \<times> (error + 8 word)) =
     (r\<lparr>input := drop 1 (input r), reads := reads r @ [1]\<rparr>, Inr (le_word (take 1 (input r))))"
  using readElement_enough [where 'a = 8, of r] by simp

lemma readNetAddress_enough:
  assumes "26 \<le> length (input r)"
  shows "readNetAddress r pver =
     (r\<lparr>input := drop 26 (input r), reads := reads r @ [8, 16, 2]\<rparr>,
      Inr \<lparr>na_Services = le_word (take 8 (input r)),
           na_IP = be_word (take 16 (drop 8 (input r))),
           na_Port = be_word (take 2 (drop 24 (input r)))\<rparr>)"
proof -
  from assms have "8 \<le> length (input r)" "16 \<le> length (input r) - 8"
    "2 \<le> length (input r) - 24"
    by simp_all
  then show ?thesis
    by (simp add: readNetAddress_def readElement64 readArray_def io_ReadFull_def add.commute)
qed

lemma BtcDecode_enough:
  assumes "80 \<le> length (input r)"
  shows "BtcDecode msg r pver =
     (case readVarString (r\<lparr>input := drop 80 (input r),
                              reads := reads r @ [4, 8, 8, 8, 16, 2, 8, 16, 2, 8]\<rparr>) pver of
        (r7, Inl err) \<Rightarrow> (fixed_fields msg (input r), r7, Some err)
      | (r7, Inr ua) \<Rightarrow>
          if length ua > MaxUserAgentLen
          then (fixed_fields msg (input r), r7,
                Some (MessageError ''MsgVersion.BtcDecode''
                  (UserAgentTooLong (length ua) MaxUserAgentLen)))
          else
            (case readElement r7 of
               (r8, Inl err) \<Rightarrow> ((fixed_fields msg (input r))\<lparr>UserAgent := ua\<rparr>, r8, Some err)
             | (r8, Inr v) \<Rightarrow>
                 ((fixed_fields msg (input r))\<lparr>UserAgent := ua, LastBlock := v\<rparr>, r8, None)))"
proof -
  from assms have l:
    "4 \<le> length (input r)" "8 \<le> length (input r) - 4" "8 \<le> length (input r) - 12"
    "26 \<le> length (input r) - 20" "26 \<le> length (input r) - 46"
    "8 \<le> length (input r) - 72"
    by simp_all
  show ?thesis
    using l
    by (simp add: BtcDecode_def readElement32 readElement64 readNetAddress_enough
          fixed_fields_def messageError_def Let_def add.commute
          split: prod.splits sum.splits)
qed

lemma le_word_single [simp]: "le_word [b] = (ucast b :: 'a::len word)"
  by simp

lemma take_bit_small_word:
  fixes v :: uint64
  assumes "unat v < 2 ^ n"
  shows "take_bit n v = v"
proof -
  have "unat (take_bit n v) = unat v"
    using assms by (simp add: unsigned_take_bit_eq take_bit_nat_eq_self)
  then show ?thesis
    by (simp add: word_eq_iff_unsigned [where ?'a = nat])
qed

lemma ucast_byte_id: "v < 256 \<Longrightarrow> (ucast (ucast v :: byte) :: uint64) = v" for v :: uint64
proof -
  assume "v < 256"
  then have "unat v < 2 ^ 8"
    by (simp add: word_less_nat_alt)
  then have "take_bit 8 v = v"
    by (rule take_bit_small_word)
  moreover have "(ucast (ucast v :: byte) :: uint64) = take_bit 8 v"
    by (rule bit_word_eqI) (auto simp: bit_simps)
  ultimately show ?thesis
    by simp
qed

lemma unat_ucast_byte: "unat (ucast v :: byte) = unat v mod 256" for v :: uint64
  by (simp add: unsigned_ucast_eq take_bit_eq_mod)

lemma take_bit_small:
  fixes v :: uint64
  shows "v \<le> 0xffff \<Longrightarrow> take_bit 16 v = v"
    and "v \<le> 0xffffffff \<Longrightarrow> take_bit 32 v = v"
proof -
  assume "v \<le> 0xffff"
  then have "unat v < 2 ^ 16"
    by (simp add: word_le_nat_alt)
  then show "take_bit 16 v = v"
    by (rule take_bit_small_word)
next
  assume "v \<le> 0xffffffff"
  then have "unat v < 2 ^ 32"
    by (simp add: word_le_nat_alt)
  then show "take_bit 32 v = v"
    by (rule take_bit_small_word)
qed

lemma writeVarInt_Buffer:
  "room w = None \<Longrightarrow>
   writeVarInt w pver v =
     (w\<lparr>written := written w @
        (if v < 0xfd then [ucast v]
         else if v \<le> 0xffff then 0xfd # le_bytes 2 v
         else if v \<le> 0xffffffff then 0xfe # le_bytes 4 v
         else 0xff # le_bytes 8 v)\<rparr>, None)"
  by (simp add: writeVarInt_def Write_unbounded)

lemma readVarInt_written:
  assumes "input r =
        (if v < 0xfd then [ucast v]
         else if v \<le> 0xffff then 0xfd # le_bytes 2 v
         else if v \<le> 0xffffffff then 0xfe # le_bytes 4 v
         else 0xff # le_bytes 8 v) @ rest"
  shows "readVarInt r pver =
     (r\<lparr>input := rest,
        reads := reads r @
          (if v < 0xfd then [1] else if v \<le> 0xffff then [1, 2]
           else if v \<le> 0xffffffff then [1, 4] else [1, 8])\<rparr>, Inr v)"
proof (cases "v < 0xfd")
  case True
  then have u: "unat v < 253"
    by (simp add: word_less_nat_alt)
  then have "unat (ucast v :: byte) < 253"
    by (simp add: unat_ucast_byte)
  then have ne: "(ucast v :: byte) \<noteq> 0xff" "(ucast v :: byte) \<noteq> 0xfe"
    "(ucast v :: byte) \<noteq> 0xfd"
    by auto
  from u have "v < 256"
    by (simp add: word_less_nat_alt)
  then have id: "(ucast (ucast v :: byte) :: uint64) = v"
    by (rule ucast_byte_id)
  from True assms have i: "input r = ucast v # rest"
    by simp
  show ?thesis
    using True ne id
    by (simp add: readVarInt_def readElement_def io_ReadFull_def i)
next
  case False
  note big = this
  show ?thesis
  proof (cases "v \<le> 0xffff")
    case True
    from big True assms have i: "input r = 0xfd # le_bytes 2 v @ rest"
      by simp
    have "le_word (le_bytes 2 v) = v"
      using take_bit_small(1) [OF True] by (simp add: le_word_le_bytes)
    then show ?thesis
      using big True
      by (simp add: readVarInt_def readElement_def io_ReadFull_def i)
  next
    case False
    note bigger = this
    show ?thesis
    proof (cases "v \<le> 0xffffffff")
      case True
      from big bigger True assms have i: "input r = 0xfe # le_bytes 4 v @ rest"
        by simp
      have "le_word (le_bytes 4 v) = v"
        using take_bit_small(2) [OF True] by (simp add: le_word_le_bytes)
      then show ?thesis
        using big bigger True
        by (simp add: readVarInt_def readElement_def io_ReadFull_def i)
    next
      case False
      from big bigger False assms have i: "input r = 0xff # le_bytes 8 v @ rest"
        by simp
      have "le_word (le_bytes 8 v) = v"
        by (simp add: le_word_le_bytes_full)
      then show ?thesis
        using big bigger False
        by (simp add: readVarInt_def readElement_def io_ReadFull_def i)
    qed
  qed
qed

section \<open>Strings with a length prefix\<close>

lemma Buffer_room [simp]: "room Buffer = None" and Buffer_written [simp]: "written Buffer = []"
  by (simp_all add: Buffer_def)

lemma writeVarString_unbounded:
  "room w = None \<Longrightarrow>
   writeVarString w pver str =
     (w\<lparr>written := written w @ written (fst (writeVarInt Buffer pver (of_nat (length str))))
                      @ bytes_of str\<rparr>, None)"
  by (simp add: writeVarString_def writeVarInt_Buffer Write_unbounded)

lemma readVarInt_of_written:
  assumes "input r = written (fst (writeVarInt Buffer pver v)) @ rest"
  shows "readVarInt r pver' =
     (r\<lparr>input := rest,
        reads := reads r @
          (if v < 0xfd then [1] else if v \<le> 0xffff then [1, 2]
           else if v \<le> 0xffffffff then [1, 4] else [1, 8])\<rparr>, Inr v)"
proof -
  from assms have "input r =
        (if v < 0xfd then [ucast v]
         else if v \<le> 0xffff then 0xfd # le_bytes 2 v
         else if v \<le> 0xffffffff then 0xfe # le_bytes 4 v
         else 0xff # le_bytes 8 v) @ rest"
    by (simp add: writeVarInt_Buffer)
  then show ?thesis
    by (rule readVarInt_written)
qed

lemma readVarString_of_written:
  assumes "input r = written (fst (writeVarString Buffer pver str)) @ rest"
    and "length str < 2 ^ 64"
  shows "readVarString r pver' =
     (r\<lparr>input := rest,
        reads := reads r @
          (if length str < 0xfd then [1] else if length str \<le> 0xffff then [1, 2]
           else if length str \<le> 0xffffffff then [1, 4] else [1, 8])
          @ (if length str = 0 then [] else [length str])\<rparr>, Inr str)"
proof -
  let ?v = "of_nat (length str) :: uint64"
  have u: "unat ?v = length str"
    using assms(2) by (simp add: unat_of_nat take_bit_nat_eq_self)
  have c: "(?v < 0xfd) = (length str < 0xfd)" "(?v \<le> 0xffff) = (length str \<le> 0xffff)"
    "(?v \<le> 0xffffffff) = (length str \<le> 0xffffffff)"
    by (simp_all add: word_less_nat_alt word_le_nat_alt u)
  from assms(1) have i: "input r =
      written (fst (writeVarInt Buffer pver ?v)) @ (bytes_of str @ rest)"
    by (simp add: writeVarString_unbounded)
  let ?vr = "if length str < 0xfd then [1] else if length str \<le> 0xffff then [1, 2]
           else if length str \<le> 0xffffffff then [1, 4] else [1 :: nat, 8]"
  let ?r1 = "r\<lparr>input := bytes_of str @ rest, reads := reads r @ ?vr\<rparr>"
  have v: "readVarInt r pver' = (?r1, Inr ?v)"
    by (simp add: readVarInt_of_written [OF i] c)
  have rd: "io_ReadFull ?r1 (length str) =
      (?r1\<lparr>input := rest,
            reads := reads ?r1 @ (if length str = 0 then [] else [length str])\<rparr>,
       Inr (bytes_of str))"
    by (simp add: io_ReadFull_def bytes_of_def)
  have "readVarString r pver' =
      (?r1\<lparr>input := rest,
            reads := reads ?r1 @ (if length str = 0 then [] else [length str])\<rparr>,
       Inr (string_of (bytes_of str)))"
    by (simp only: readVarString_def v u rd prod.case sum.case)
  then show ?thesis
    by simp
qed

text \<open>
  C6. Both directions reject a user agent of more than 2000 bytes. \<open>BtcEncode\<close> returns the
  error of \<open>MsgVersion.BtcEncode\<close> with the sink as it was, whatever the sink is.
  \<open>BtcDecode\<close>, once the 80 bytes of the fixed-width fields before the user agent have
  been read, returns the error of \<open>MsgVersion.BtcDecode\<close> whenever the string that
  \<open>readVarString\<close> reads there has more than 2000 bytes, and does not store it. On a
  stream it reads: after any 80 bytes, the length prefix and the bytes of a string of
  more than 2000 bytes, \<open>BtcDecode\<close> fails with that error whatever follows the string.
\<close>

theorem UserAgent_limit:
  "(2000 < length (UserAgent msg) \<longrightarrow>
      BtcEncode msg w pver =
        (w, Some (MessageError ''MsgVersion.BtcEncode''
              (UserAgentTooLong (length (UserAgent msg)) 2000))))
   \<and> (80 \<le> length (input r)
      \<and> readVarString (r\<lparr>input := drop 80 (input r),
                            reads := reads r @ [4, 8, 8, 8, 16, 2, 8, 16, 2, 8]\<rparr>) pver
          = (r7, Inr ua)
      \<and> 2000 < length ua \<longrightarrow>
      BtcDecode m0 r pver =
        (fixed_fields m0 (input r), r7,
         Some (MessageError ''MsgVersion.BtcDecode'' (UserAgentTooLong (length ua) 2000)))
      \<and> UserAgent (fst (BtcDecode m0 r pver)) = UserAgent m0)
   \<and> (length pre = 80 \<and> 2000 < length str \<and> length str < 2 ^ 64
      \<and> input r = pre @ written (fst (writeVarString Buffer pver str)) @ rest \<longrightarrow>
      BtcDecode m0 r pver =
        (fixed_fields m0 (input r),
         r\<lparr>input := rest,
           reads := reads r @ [4, 8, 8, 8, 16, 2, 8, 16, 2, 8]
             @ (if length str \<le> 0xffff then [1, 2]
                else if length str \<le> 0xffffffff then [1, 4] else [1, 8])
             @ [length str]\<rparr>,
         Some (MessageError ''MsgVersion.BtcDecode'' (UserAgentTooLong (length str) 2000)))
      \<and> UserAgent (fst (BtcDecode m0 r pver)) = UserAgent m0)"
proof (intro conjI impI)
  assume "2000 < length (UserAgent msg)"
  then show "BtcEncode msg w pver =
        (w, Some (MessageError ''MsgVersion.BtcEncode''
              (UserAgentTooLong (length (UserAgent msg)) 2000)))"
    by (simp add: BtcEncode_def MaxUserAgentLen_def messageError_def)
next
  assume a: "80 \<le> length (input r)
      \<and> readVarString (r\<lparr>input := drop 80 (input r),
                            reads := reads r @ [4, 8, 8, 8, 16, 2, 8, 16, 2, 8]\<rparr>) pver
          = (r7, Inr ua)
      \<and> 2000 < length ua"
  then have l: "80 \<le> length (input r)"
    by simp
  from a show e: "BtcDecode m0 r pver =
        (fixed_fields m0 (input r), r7,
         Some (MessageError ''MsgVersion.BtcDecode'' (UserAgentTooLong (length ua) 2000)))"
    by (simp add: BtcDecode_enough [OF l] MaxUserAgentLen_def)
  show "UserAgent (fst (BtcDecode m0 r pver)) = UserAgent m0"
    by (simp add: e fixed_fields_def)
next
  assume a: "length pre = 80 \<and> 2000 < length str \<and> length str < 2 ^ 64
      \<and> input r = pre @ written (fst (writeVarString Buffer pver str)) @ rest"
  then have l: "80 \<le> length (input r)"
    by simp
  let ?r6 = "r\<lparr>input := drop 80 (input r),
                reads := reads r @ [4, 8, 8, 8, 16, 2, 8, 16, 2, 8]\<rparr>"
  from a have i: "input ?r6 = written (fst (writeVarString Buffer pver str)) @ rest"
    by simp
  from a have s: "length str < 2 ^ 64"
    by simp
  from a have "2000 < length str"
    by simp
  then have big: "\<not> length str < 0xfd" "length str \<noteq> 0"
    by auto
  show e: "BtcDecode m0 r pver =
        (fixed_fields m0 (input r),
         r\<lparr>input := rest,
           reads := reads r @ [4, 8, 8, 8, 16, 2, 8, 16, 2, 8]
             @ (if length str \<le> 0xffff then [1, 2]
                else if length str \<le> 0xffffffff then [1, 4] else [1, 8])
             @ [length str]\<rparr>,
         Some (MessageError ''MsgVersion.BtcDecode'' (UserAgentTooLong (length str) 2000)))"
    using \<open>2000 < length str\<close> big
    by (simp only: BtcDecode_enough [OF l] readVarString_of_written [OF i s] prod.case sum.case)
      (simp add: MaxUserAgentLen_def)
  show "UserAgent (fst (BtcDecode m0 r pver)) = UserAgent m0"
    by (simp add: e fixed_fields_def)
qed


theorem UserAgent_limit_witness:
  "BtcEncode (empty_MsgVersion\<lparr>UserAgent := replicate 2001 (CHR ''a'')\<rparr>)
      \<lparr>written = [9], room = Some 5\<rparr> 70001
     = (\<lparr>written = [9], room = Some 5\<rparr>,
        Some (MessageError ''MsgVersion.BtcEncode'' (UserAgentTooLong 2001 2000)))
   \<and> written (fst (writeVarString Buffer 70001 (replicate 2001 (CHR ''a''))))
     = [0xfd, 0xd1, 0x07] @ replicate 2001 97
   \<and> snd (BtcDecode empty_MsgVersion
        \<lparr>input = replicate 80 0 @ ([0xfd, 0xd1, 0x07] @ replicate 2001 97) @ [1, 2, 3, 4],
         reads = [], allocs = []\<rparr> 70001)
     = (\<lparr>input = [1, 2, 3, 4], reads = [4, 8, 8, 8, 16, 2, 8, 16, 2, 8, 1, 2, 2001],
         allocs = []\<rparr>,
        Some (MessageError ''MsgVersion.BtcDecode'' (UserAgentTooLong 2001 2000)))
   \<and> UserAgent (fst (BtcDecode empty_MsgVersion
        \<lparr>input = replicate 80 0 @ ([0xfd, 0xd1, 0x07] @ replicate 2001 97) @ [1, 2, 3, 4],
         reads = [], allocs = []\<rparr> 70001)) = []"
proof -
  let ?ua = "replicate 2001 (CHR ''a'')"
  let ?msg = "empty_MsgVersion\<lparr>UserAgent := ?ua\<rparr>"
  let ?w = "\<lparr>written = [9], room = Some 5\<rparr>"
  let ?pre = "replicate 80 (0 :: byte)"
  let ?rest = "[1, 2, 3, 4 :: byte]"
  let ?r = "\<lparr>input = ?pre @ ([0xfd, 0xd1, 0x07] @ replicate 2001 97) @ ?rest,
             reads = [], allocs = []\<rparr>"
  have e: "BtcEncode ?msg ?w 70001
     = (?w, Some (MessageError ''MsgVersion.BtcEncode'' (UserAgentTooLong 2001 2000)))"
    using UserAgent_limit [where msg = ?msg and w = ?w and pver = 70001]
    by simp
  have wr: "written (fst (writeVarString Buffer 70001 ?ua))
     = [0xfd, 0xd1, 0x07] @ replicate 2001 97"
    by (simp add: writeVarString_unbounded writeVarInt_Buffer bytes_of_def
          le_bytes_numeral le_bytes_1)
  have pre: "length ?pre = 80 \<and> 2000 < length ?ua \<and> length ?ua < 2 ^ 64
      \<and> input ?r = ?pre @ written (fst (writeVarString Buffer 70001 ?ua)) @ ?rest"
    by (simp only: wr) simp
  from UserAgent_limit [where pre = ?pre and str = ?ua and r = ?r and pver = 70001
      and rest = ?rest and ?m0.0 = empty_MsgVersion] pre
  have d: "BtcDecode empty_MsgVersion ?r 70001 =
        (fixed_fields empty_MsgVersion (input ?r),
         ?r\<lparr>input := ?rest,
           reads := reads ?r @ [4, 8, 8, 8, 16, 2, 8, 16, 2, 8]
             @ (if length ?ua \<le> 0xffff then [1, 2]
                else if length ?ua \<le> 0xffffffff then [1, 4] else [1, 8])
             @ [length ?ua]\<rparr>,
         Some (MessageError ''MsgVersion.BtcDecode'' (UserAgentTooLong (length ?ua) 2000)))
      \<and> UserAgent (fst (BtcDecode empty_MsgVersion ?r 70001)) = UserAgent empty_MsgVersion"
    by blast
  from d have d1: "snd (BtcDecode empty_MsgVersion ?r 70001)
     = (\<lparr>input = [1, 2, 3, 4], reads = [4, 8, 8, 8, 16, 2, 8, 16, 2, 8, 1, 2, 2001],
         allocs = []\<rparr>,
        Some (MessageError ''MsgVersion.BtcDecode'' (UserAgentTooLong 2001 2000)))"
    by simp
  have ua0: "UserAgent empty_MsgVersion = []"
    by (simp add: empty_MsgVersion_def)
  from d have "UserAgent (fst (BtcDecode empty_MsgVersion ?r 70001)) = UserAgent empty_MsgVersion"
    by blast
  then have d2: "UserAgent (fst (BtcDecode empty_MsgVersion ?r 70001)) = []"
    by (simp only: ua0)
  from e wr d1 d2 show ?thesis
    by (intro conjI)
qed

end
